theory Spec2Isabelle
  imports Main "HOL-Library.Char_ord" "HOL-Library.List_Lexorder"
begin

section \<open>Values shared by the extractor and the summarizer\<close>

text \<open>
  The decoded form of a JSON document, as \<^verbatim>\<open>encoding/json\<close> stores it in an
  \<^verbatim>\<open>interface{}\<close>: \<^verbatim>\<open>nil\<close>, \<^verbatim>\<open>bool\<close>, \<^verbatim>\<open>float64\<close>, \<^verbatim>\<open>string\<close>,
  \<^verbatim>\<open>[]interface{}\<close> and \<^verbatim>\<open>map[string]interface{}\<close>. The payload of a number is never
  read by the code. An object is the list of its entries in the order in which the one
  \<^verbatim>\<open>range\<close> statement that visits it yields them (Go leaves that order open, so every
  order is a possible input); a lookup \<^verbatim>\<open>m[k]\<close> is \<open>index\<close>.
\<close>

datatype json =
    JNull
  | JBool bool
  | JNumber int
  | JString string
  | JArray "json list"
  | JObject "(string \<times> json) list"

text \<open>
  A Go call either returns or panics. A failed type assertion \<^verbatim>\<open>x.(T)\<close> without the
  comma-ok form is a run-time panic, and nothing in the repository recovers from it.
\<close>

datatype 'a outcome = Returns 'a | Panics

definition andThen :: "'a outcome \<Rightarrow> ('a \<Rightarrow> 'b outcome) \<Rightarrow> 'b outcome" where
  "andThen x f = (case x of Panics \<Rightarrow> Panics | Returns a \<Rightarrow> f a)"

text \<open>\<^verbatim>\<open>m[k]\<close> on a \<^verbatim>\<open>map[string]interface{}\<close>: the stored value, \<^verbatim>\<open>nil\<close> when absent.\<close>

definition index :: "(string \<times> json) list \<Rightarrow> string \<Rightarrow> json" where
  "index m k = (case map_of m k of None \<Rightarrow> JNull | Some v \<Rightarrow> v)"

text \<open>The three type assertions of the code.\<close>

definition asMap :: "json \<Rightarrow> (string \<times> json) list outcome" where
  "asMap j = (case j of JObject m \<Rightarrow> Returns m | _ \<Rightarrow> Panics)"

definition asSlice :: "json \<Rightarrow> json list outcome" where
  "asSlice j = (case j of JArray xs \<Rightarrow> Returns xs | _ \<Rightarrow> Panics)"

definition asString :: "json \<Rightarrow> string outcome" where
  "asString j = (case j of JString s \<Rightarrow> Returns s | _ \<Rightarrow> Panics)"

section \<open>Status Summarizer (clientV2.go)\<close>

text \<open>
  \<^verbatim>\<open>PerXdsConfig\<close>, \<^verbatim>\<open>ClientConfig\<close> and \<^verbatim>\<open>Node\<close> are declared by the control-plane
  library; the code reads them through getters only, so a message is the record of what
  its getters return (\<open>None\<close> for \<^verbatim>\<open>nil\<close>). \<open>'d\<close> is the type of a configuration dump,
  which the summarizer never opens. \<^verbatim>\<open>ConfigStatus\<close> is an \<^verbatim>\<open>int32\<close> enumeration whose
  \<^verbatim>\<open>String()\<close> method is generated code outside the repository: it is the parameter
  \<open>String\<close> of the functions below.
\<close>

type_synonym ConfigStatus = int

record 'd PerXdsConfig =
  GetStatus :: ConfigStatus
  GetClusterConfig :: "'d option"
  GetListenerConfig :: "'d option"
  GetRouteConfig :: "'d option"
  GetScopedRouteConfig :: "'d option"

record Node =
  GetId :: string
  GetMetadata :: "(string \<times> json) list"

record 'd ClientConfig =
  GetNode :: "Node option"
  GetXdsConfig :: "'d PerXdsConfig list option"

text \<open>Lines 217-226 of clientV2.go: the tag of one entry, \<open>''''\<close> when no variant is set.\<close>

definition xdsTag :: "'d PerXdsConfig \<Rightarrow> string" where
  "xdsTag perXdsConfig =
     (if GetClusterConfig perXdsConfig \<noteq> None then ''CDS''
      else if GetListenerConfig perXdsConfig \<noteq> None then ''LDS''
      else if GetRouteConfig perXdsConfig \<noteq> None then ''RDS''
      else if GetScopedRouteConfig perXdsConfig \<noteq> None then ''SRDS''
      else '''')"

text \<open>
  The label as the specification words it: the tag of the first populated variant in
  the order cluster, listener, route, scoped route.
\<close>

definition firstPopulated :: "'d PerXdsConfig \<Rightarrow> string" where
  "firstPopulated e =
     (case filter (\<lambda>(variant, tag). variant \<noteq> None)
             [(GetClusterConfig e, ''CDS''), (GetListenerConfig e, ''LDS''),
              (GetRouteConfig e, ''RDS''), (GetScopedRouteConfig e, ''SRDS'')] of
        [] \<Rightarrow> ''''
      | (variant, tag) # _ \<Rightarrow> tag)"

text \<open>The loop of \<^verbatim>\<open>parseConfigStatus_v2\<close>, with \<open>configStatus\<close> as accumulator.\<close>

fun parseConfigStatus_loop ::
  "(ConfigStatus \<Rightarrow> string) \<Rightarrow> string list \<Rightarrow> 'd PerXdsConfig list \<Rightarrow> string list" where
  "parseConfigStatus_loop String configStatus [] = configStatus"
| "parseConfigStatus_loop String configStatus (perXdsConfig # rest) =
     (let status = String (GetStatus perXdsConfig);
          xds = xdsTag perXdsConfig
      in parseConfigStatus_loop String
           (if status \<noteq> '''' \<and> xds \<noteq> '''' then configStatus @ [xds @ ''   '' @ status]
            else configStatus)
           rest)"

definition parseConfigStatus_v2 ::
  "(ConfigStatus \<Rightarrow> string) \<Rightarrow> 'd PerXdsConfig list \<Rightarrow> string list" where
  "parseConfigStatus_v2 String xdsConfig = parseConfigStatus_loop String [] xdsConfig"

text \<open>
  \<^verbatim>\<open>utf8.RuneCountInString\<close>, by which \<^verbatim>\<open>fmt\<close> measures a string against a width. A
  string is a sequence of bytes; a well-formed UTF-8 sequence of two, three or four bytes
  counts once, every other byte counts for itself. \<open>runeWidth\<close> is the number of bytes
  that the rune at the head of a string takes, \<open>skip\<close> the number of bytes of the
  current rune still to pass.
\<close>

definition contByte :: "char \<Rightarrow> bool" where
  "contByte c \<longleftrightarrow> 0x80 \<le> (of_char c :: nat) \<and> (of_char c :: nat) \<le> 0xBF"

fun runeWidth :: "string \<Rightarrow> nat" where
  "runeWidth [] = 0"
| "runeWidth (c # rest) =
     (let b = of_char c :: nat in
      if b < 0x80 then 1
      else if b < 0xC2 \<or> 0xF4 < b then 1
      else
        (let size = (if b < 0xE0 then 2 else if b < 0xF0 then 3 else 4 :: nat);
             lo = (if b = 0xE0 then 0xA0 else if b = 0xF0 then 0x90 else 0x80 :: nat);
             hi = (if b = 0xED then 0x9F else if b = 0xF4 then 0x8F else 0xBF :: nat)
         in if Suc (length rest) < size then 1
            else if (of_char (rest ! 0) :: nat) < lo \<or> hi < (of_char (rest ! 0) :: nat) then 1
            else if size = 2 then 2
            else if \<not> contByte (rest ! 1) then 1
            else if size = 3 then 3
            else if \<not> contByte (rest ! 2) then 1
            else 4))"

fun countRunes :: "nat \<Rightarrow> string \<Rightarrow> nat" where
  "countRunes skip [] = 0"
| "countRunes skip (c # rest) =
     (if 0 < skip then countRunes (skip - 1) rest
      else Suc (countRunes (runeWidth (c # rest) - 1) rest))"

definition RuneCountInString :: "string \<Rightarrow> nat" where
  "RuneCountInString s = countRunes 0 s"

text \<open>
  \<^verbatim>\<open>%-Ns\<close> of \<^verbatim>\<open>fmt.Printf\<close>: the string, followed by spaces up to a width of \<open>N\<close>
  runes (never cut).
\<close>

definition pad :: "nat \<Rightarrow> string \<Rightarrow> string" where
  "pad n s = s @ replicate (n - RuneCountInString s) (CHR '' '')"

definition newline :: string where
  "newline = [CHR 0x0A]"

text \<open>The format \<^verbatim>\<open>"%-50s %-30s %-30s \n"\<close>.\<close>

definition row :: "string \<Rightarrow> string \<Rightarrow> string \<Rightarrow> string" where
  "row a b c = pad 50 a @ '' '' @ pad 30 b @ '' '' @ pad 30 c @ '' '' @ newline"

text \<open>Lines 270-276: the status lines of one client, \<open>i\<close> the loop counter.\<close>

fun printStatusLines :: "nat \<Rightarrow> string list \<Rightarrow> string" where
  "printStatusLines i [] = ''''"
| "printStatusLines i (s # rest) =
     (if i = 0 then pad 30 s @ '' '' @ newline else row '''' '''' s)
     @ printStatusLines (Suc i) rest"

text \<open>
  Lines 246-257: the id and the stream type of a client. A metadata value under
  \<^verbatim>\<open>XDS_STREAM_TYPE\<close> that is not a string fails the type assertion.
\<close>

definition clientIdAndType :: "'d ClientConfig \<Rightarrow> (string \<times> string) outcome" where
  "clientIdAndType config =
     (case GetNode config of
        None \<Rightarrow> Returns ('''', '''')
      | Some node \<Rightarrow>
          (let metadata = GetMetadata node in
           if index metadata ''XDS_STREAM_TYPE'' \<noteq> JNull
           then andThen (asString (index metadata ''XDS_STREAM_TYPE''))
                  (\<lambda>xdsType. Returns (GetId node, xdsType))
           else Returns (GetId node, '''')))"

text \<open>
  What is written to standard output stays written when the program panics afterwards,
  so the printing functions give the text printed together with how the call ended.
  Lines 245-281, one iteration: the text that the iteration prints, and whether it sets
  \<open>hasXdsConfig\<close>. The type assertion comes before the first \<^verbatim>\<open>Printf\<close> of the
  iteration.
\<close>

definition printClient ::
  "(ConfigStatus \<Rightarrow> string) \<Rightarrow> 'd ClientConfig \<Rightarrow> string \<times> bool outcome" where
  "printClient String config =
     (case clientIdAndType config of
        Panics \<Rightarrow> ('''', Panics)
      | Returns (id', xdsType) \<Rightarrow>
          (case GetXdsConfig config of
             None \<Rightarrow>
               (if GetNode config \<noteq> None then row id' xdsType ''N/A'' else '''', Returns False)
           | Some xdsConfig \<Rightarrow>
               (let configStatus = parseConfigStatus_v2 String xdsConfig in
                (pad 50 id' @ '' '' @ pad 30 xdsType @ '' ''
                 @ printStatusLines 0 configStatus
                 @ (if length configStatus = 0 then newline else ''''), Returns True))))"

text \<open>Line 245: the loop over the clients, with the text so far and \<open>hasXdsConfig\<close>.\<close>

fun printClients ::
  "(ConfigStatus \<Rightarrow> string) \<Rightarrow> string \<Rightarrow> bool \<Rightarrow> 'd ClientConfig list
     \<Rightarrow> string \<times> bool outcome" where
  "printClients String out hasXdsConfig [] = (out, Returns hasXdsConfig)"
| "printClients String out hasXdsConfig (config # rest) =
     (case printClient String config of
        (text, Panics) \<Rightarrow> (out @ text, Panics)
      | (text, Returns has) \<Rightarrow> printClients String (out @ text) (hasXdsConfig \<or> has) rest)"

text \<open>
  \<^verbatim>\<open>printOutResponse_v2\<close>: the text written to standard output, and the returned error
  or the panic. The response is the list \<^verbatim>\<open>response.GetConfig()\<close> (empty for a \<^verbatim>\<open>nil\<close>
  response). \<^verbatim>\<open>printDetailedConfig\<close> is a function of the repository that is not among
  the sources; it is the parameter of the same name, giving its output and how it ends.
\<close>

definition printOutResponse_v2 ::
  "(ConfigStatus \<Rightarrow> string) \<Rightarrow> ('d ClientConfig list \<Rightarrow> string \<times> string option outcome)
     \<Rightarrow> 'd ClientConfig list \<Rightarrow> string \<times> string option outcome" where
  "printOutResponse_v2 String printDetailedConfig response =
     (if length response = 0 then (''No xDS clients connected.'' @ newline, Returns None)
      else case printClients String
                  (row ''Client ID'' ''xDS stream type'' ''Config Status'') False response of
             (out, Panics) \<Rightarrow> (out, Panics)
           | (out, Returns hasXdsConfig) \<Rightarrow>
               if hasXdsConfig
               then (case printDetailedConfig response of
                       (detail, result) \<Rightarrow> (out @ detail, result))
               else (out, Returns None))"

section \<open>Reference Extractor and Graph Builder (parseXdsRelationship)\<close>

subsection \<open>Library values\<close>

text \<open>
  Modelled from the spec: the set type \<^verbatim>\<open>treeset.Set\<close> of the third-party package
  \<^verbatim>\<open>gods\<close>, created by \<^verbatim>\<open>treeset.NewWithStringComparator()\<close>, is not part of the
  repository. The specification describes it as a deduplicating, comparison-ordered set
  whose iteration is in lexicographic order. A set is the list that \<^verbatim>\<open>Values()\<close>
  returns; strings are compared byte by byte, a proper prefix first. Only strings are
  ever added, so the assertion \<^verbatim>\<open>dst.(string)\<close> of line 330 cannot fail.
\<close>

type_synonym treeset = "string list"

definition NewWithStringComparator :: treeset where
  "NewWithStringComparator = []"

definition Add :: "string \<Rightarrow> treeset \<Rightarrow> treeset" where
  "Add x s = (if x \<in> set s then s else insort x s)"

definition Values :: "treeset \<Rightarrow> string list" where
  "Values s = s"

text \<open>
  \<^verbatim>\<open>strconv.Itoa\<close> on a loop index, which is never negative: the decimal digits, most
  significant first, without leading zeros.
\<close>

fun Itoa :: "nat \<Rightarrow> string" where
  "Itoa n =
     (if n < 10 then [''0123456789'' ! n]
      else Itoa (n div 10) @ [''0123456789'' ! (n mod 10)])"

declare Itoa.simps [simp del]

subsection \<open>The maps under construction\<close>

text \<open>
  The five maps \<open>lds\<close>, \<open>rds\<close>, \<open>cds\<close>, \<open>ldsToRds\<close> and \<open>rdsToCds\<close> that
  \<^verbatim>\<open>parseXdsRelationship\<close> fills. A Go map has no order of its own.
\<close>

record xds_maps =
  lds :: "string \<rightharpoonup> string"
  rds :: "string \<rightharpoonup> string"
  cds :: "string \<rightharpoonup> string"
  ldsToRds :: "string \<rightharpoonup> treeset"
  rdsToCds :: "string \<rightharpoonup> treeset"

record GraphData =
  nodes :: "(string \<rightharpoonup> string) list"
  relations :: "(string \<rightharpoonup> treeset) list"

definition make_maps :: xds_maps where
  "make_maps = \<lparr>lds = Map.empty, rds = Map.empty, cds = Map.empty,
                 ldsToRds = Map.empty, rdsToCds = Map.empty\<rparr>"

text \<open>The zero value \<^verbatim>\<open>GraphData{}\<close>: both slices \<^verbatim>\<open>nil\<close>.\<close>

definition GraphData_zero :: GraphData where
  "GraphData_zero = \<lparr>nodes = [], relations = []\<rparr>"

subsection \<open>Listeners (lines 238-254)\<close>

text \<open>Line 248: the route-table name of one filter, by four unchecked assertions.\<close>

definition filterRdsName :: "json \<Rightarrow> string outcome" where
  "filterRdsName filter' =
     andThen (asMap filter') (\<lambda>f.
     andThen (asMap (index f ''typedConfig'')) (\<lambda>typedConfig.
     andThen (asMap (index typedConfig ''rds'')) (\<lambda>rds.
     asString (index rds ''routeConfigName''))))"

text \<open>Lines 247-250: the filters of one filter chain.\<close>

fun scanFilters :: "treeset \<Rightarrow> json list \<Rightarrow> treeset outcome" where
  "scanFilters rdsSet [] = Returns rdsSet"
| "scanFilters rdsSet (filter' # rest) =
     andThen (filterRdsName filter') (\<lambda>rdsName. scanFilters (Add rdsName rdsSet) rest)"

text \<open>Lines 246-251: the filter chains of one listener.\<close>

definition filterchainFilters :: "json \<Rightarrow> json list outcome" where
  "filterchainFilters filterchain =
     andThen (asMap filterchain) (\<lambda>fc. asSlice (index fc ''filters''))"

fun scanFilterChains :: "treeset \<Rightarrow> json list \<Rightarrow> treeset outcome" where
  "scanFilterChains rdsSet [] = Returns rdsSet"
| "scanFilterChains rdsSet (filterchain # rest) =
     andThen (filterchainFilters filterchain) (\<lambda>filters.
     andThen (scanFilters rdsSet filters) (\<lambda>rdsSet'.
     scanFilterChains rdsSet' rest))"

text \<open>Line 240: \<open>detail\<close>, the listener proper.\<close>

definition listenerDetail :: "json \<Rightarrow> (string \<times> json) list outcome" where
  "listenerDetail listener =
     andThen (asMap listener) (\<lambda>l.
     andThen (asMap (index l ''activeState'')) (\<lambda>activeState.
     asMap (index activeState ''listener'')))"

text \<open>
  Lines 240-252, the body of the loop over one array of listeners; \<open>idx\<close> is the index
  of the listener in that array. A panic discards the maps, so the assignment of line
  243 may be written with the one of line 252.
\<close>

definition listenerStep :: "nat \<Rightarrow> xds_maps \<Rightarrow> json \<Rightarrow> xds_maps outcome" where
  "listenerStep idx m listener =
     andThen (listenerDetail listener) (\<lambda>detail.
     andThen (asString (index detail ''name'')) (\<lambda>name.
     andThen (asSlice (index detail ''filterChains'')) (\<lambda>filterChains.
     andThen (scanFilterChains NewWithStringComparator filterChains) (\<lambda>rdsSet.
     Returns (m\<lparr>lds := (lds m)(name \<mapsto> ''LDS'' @ Itoa idx),
                 ldsToRds := (ldsToRds m)(name \<mapsto> rdsSet)\<rparr>)))))"

subsection \<open>Route tables (lines 256-280)\<close>

text \<open>Lines 268-271: the clusters of a weighted set.\<close>

definition weightedClusterName :: "json \<Rightarrow> string outcome" where
  "weightedClusterName cluster =
     andThen (asMap cluster) (\<lambda>c. asString (index c ''name''))"

fun scanWeightedClusters :: "treeset \<Rightarrow> json list \<Rightarrow> treeset outcome" where
  "scanWeightedClusters cdsSet [] = Returns cdsSet"
| "scanWeightedClusters cdsSet (cluster # rest) =
     andThen (weightedClusterName cluster) (\<lambda>cdsName.
     scanWeightedClusters (Add cdsName cdsSet) rest)"

text \<open>
  Lines 266-275, one route. The comma-ok lookup of line 267 tests the presence of the
  key \<^verbatim>\<open>weightedClusters\<close>, whatever its value.
\<close>

definition routeStep :: "treeset \<Rightarrow> json \<Rightarrow> treeset outcome" where
  "routeStep cdsSet virtualRoutes =
     andThen (asMap virtualRoutes) (\<lambda>vr.
     andThen (asMap (index vr ''route'')) (\<lambda>virtualRoute.
       case map_of virtualRoute ''weightedClusters'' of
         Some weightedClusters \<Rightarrow>
           andThen (asMap weightedClusters) (\<lambda>wc.
           andThen (asSlice (index wc ''clusters'')) (\<lambda>clusters.
           scanWeightedClusters cdsSet clusters))
       | None \<Rightarrow>
           andThen (asString (index virtualRoute ''cluster'')) (\<lambda>cdsName.
           Returns (Add cdsName cdsSet))))"

fun scanRoutes :: "treeset \<Rightarrow> json list \<Rightarrow> treeset outcome" where
  "scanRoutes cdsSet [] = Returns cdsSet"
| "scanRoutes cdsSet (virtualRoutes # rest) =
     andThen (routeStep cdsSet virtualRoutes) (\<lambda>cdsSet'. scanRoutes cdsSet' rest)"

text \<open>Lines 264-277: the virtual hosts of one route table.\<close>

definition virtualHostRoutes :: "json \<Rightarrow> json list outcome" where
  "virtualHostRoutes virtualHost =
     andThen (asMap virtualHost) (\<lambda>vh. asSlice (index vh ''routes''))"

fun scanVirtualHosts :: "treeset \<Rightarrow> json list \<Rightarrow> treeset outcome" where
  "scanVirtualHosts cdsSet [] = Returns cdsSet"
| "scanVirtualHosts cdsSet (virtualHost # rest) =
     andThen (virtualHostRoutes virtualHost) (\<lambda>routes.
     andThen (scanRoutes cdsSet routes) (\<lambda>cdsSet'.
     scanVirtualHosts cdsSet' rest))"

text \<open>Lines 258-278, the body of the loop over one array of route tables.\<close>

definition routeConfigStep :: "nat \<Rightarrow> xds_maps \<Rightarrow> json \<Rightarrow> xds_maps outcome" where
  "routeConfigStep idx m route =
     andThen (asMap route) (\<lambda>r.
     andThen (asMap (index r ''routeConfig'')) (\<lambda>routeConfig.
     andThen (asString (index routeConfig ''name'')) (\<lambda>name.
     andThen (asSlice (index routeConfig ''virtualHosts'')) (\<lambda>virtualHosts.
     andThen (scanVirtualHosts NewWithStringComparator virtualHosts) (\<lambda>cdsSet.
     Returns (m\<lparr>rds := (rds m)(name \<mapsto> ''RDS'' @ Itoa idx),
                 rdsToCds := (rdsToCds m)(name \<mapsto> cdsSet)\<rparr>))))))"

subsection \<open>Clusters (lines 282-288)\<close>

definition clusterStep :: "nat \<Rightarrow> xds_maps \<Rightarrow> json \<Rightarrow> xds_maps outcome" where
  "clusterStep idx m cluster =
     andThen (asMap cluster) (\<lambda>c.
     andThen (asMap (index c ''cluster'')) (\<lambda>detail.
     andThen (asString (index detail ''name'')) (\<lambda>name.
     Returns (m\<lparr>cds := (cds m)(name \<mapsto> ''CDS'' @ Itoa idx)\<rparr>))))"

subsection \<open>The enclosing loops (lines 229-292)\<close>

text \<open>
  \<^verbatim>\<open>for idx, x := range xs\<close> over one array, with the body \<open>step\<close> of its category;
  the index starts at 0 for every array.
\<close>

fun scanArray ::
  "(nat \<Rightarrow> xds_maps \<Rightarrow> json \<Rightarrow> xds_maps outcome) \<Rightarrow> nat \<Rightarrow> xds_maps \<Rightarrow> json list
     \<Rightarrow> xds_maps outcome" where
  "scanArray step idx m [] = Returns m"
| "scanArray step idx m (x # rest) =
     andThen (step idx m x) (\<lambda>m'. scanArray step (Suc idx) m' rest)"

text \<open>
  Lines 238, 256 and 282: \<^verbatim>\<open>for _, listeners := range value.(map[string]interface{})\<close>.
  Every value of the object has to be an array, whatever its key.
\<close>

fun rangeValues ::
  "(nat \<Rightarrow> xds_maps \<Rightarrow> json \<Rightarrow> xds_maps outcome) \<Rightarrow> xds_maps \<Rightarrow> (string \<times> json) list
     \<Rightarrow> xds_maps outcome" where
  "rangeValues step m [] = Returns m"
| "rangeValues step m ((key, v) # rest) =
     andThen (asSlice v) (\<lambda>xs.
     andThen (scanArray step 0 m xs) (\<lambda>m'.
     rangeValues step m' rest))"

text \<open>Lines 232-290: the entries of one element of \<^verbatim>\<open>xdsConfig\<close>.\<close>

definition categoryStep ::
  "string \<Rightarrow> (nat \<Rightarrow> xds_maps \<Rightarrow> json \<Rightarrow> xds_maps outcome) option" where
  "categoryStep key =
     (if key = ''listenerConfig'' then Some listenerStep
      else if key = ''routeConfig'' then Some routeConfigStep
      else if key = ''clusterConfig'' then Some clusterStep
      else None)"

fun rangeXds :: "xds_maps \<Rightarrow> (string \<times> json) list \<Rightarrow> xds_maps outcome" where
  "rangeXds m [] = Returns m"
| "rangeXds m ((key, v) # rest) =
     (if key = ''status'' then rangeXds m rest
      else case categoryStep key of
             None \<Rightarrow> rangeXds m rest
           | Some step \<Rightarrow>
               andThen (asMap v) (\<lambda>value.
               andThen (rangeValues step m value) (\<lambda>m'.
               rangeXds m' rest)))"

text \<open>Line 231: the elements of \<^verbatim>\<open>xdsConfig\<close> of one client.\<close>

fun scanXdsConfig :: "xds_maps \<Rightarrow> json list \<Rightarrow> xds_maps outcome" where
  "scanXdsConfig m [] = Returns m"
| "scanXdsConfig m (xds # rest) =
     andThen (asMap xds) (\<lambda>entries.
     andThen (rangeXds m entries) (\<lambda>m'.
     scanXdsConfig m' rest))"

text \<open>Lines 229-231: the clients.\<close>

definition configXds :: "json \<Rightarrow> json list outcome" where
  "configXds config =
     andThen (asMap config) (\<lambda>configMap. asSlice (index configMap ''xdsConfig''))"

fun scanConfig :: "xds_maps \<Rightarrow> json list \<Rightarrow> xds_maps outcome" where
  "scanConfig m [] = Returns m"
| "scanConfig m (config # rest) =
     andThen (configXds config) (\<lambda>xdsConfig.
     andThen (scanXdsConfig m xdsConfig) (\<lambda>m'.
     scanConfig m' rest))"

text \<open>
  \<^verbatim>\<open>parseXdsRelationship\<close>. \<^verbatim>\<open>json.Unmarshal\<close> into a \<^verbatim>\<open>map[string]interface{}\<close> is the
  parameter \<open>Unmarshal\<close>: an error (\<open>Inl\<close>), or the entries of the top-level object.
  The function returns a pair of a \<^verbatim>\<open>GraphData\<close> and an error (\<open>None\<close> for \<^verbatim>\<open>nil\<close>).
\<close>

definition packGraph :: "xds_maps \<Rightarrow> GraphData" where
  "packGraph m = \<lparr>nodes = [lds m, rds m, cds m], relations = [ldsToRds m, rdsToCds m]\<rparr>"

definition parseXdsRelationship ::
  "(string \<Rightarrow> string + (string \<times> json) list) \<Rightarrow> string
     \<Rightarrow> (GraphData \<times> string option) outcome" where
  "parseXdsRelationship Unmarshal js =
     (case Unmarshal js of
        Inl err \<Rightarrow> Returns (GraphData_zero, Some err)
      | Inr data \<Rightarrow>
          andThen (asSlice (index data ''config'')) (\<lambda>configs.
          andThen (scanConfig make_maps configs) (\<lambda>m.
          Returns (packGraph m, None))))"

section \<open>Graph Renderer (generateGraph, visualize, openBrowser)\<close>

subsection \<open>The graph library\<close>

text \<open>
  The graph under construction belongs to the third-party package \<^verbatim>\<open>gographviz\<close>, which
  is not part of the repository. The renderer talks to it through \<^verbatim>\<open>AddAttr\<close>,
  \<^verbatim>\<open>AddNode\<close>, \<^verbatim>\<open>AddEdge\<close> and \<^verbatim>\<open>String\<close>. A graph is here the sequence of
  declarations accepted so far, and the library is a parameter: the errors it returns
  and the text it writes for a sequence of declarations. An attribute map literal is the
  list of its entries as written in the source.
\<close>

datatype gv_call =
    AddAttr string string string
  | AddNode string string "(string \<times> string) list"
  | AddEdge string string bool "(string \<times> string) list"

record gographviz =
  parseStringErr :: "string option"
  analyseErr :: "string option"
  addErr :: "gv_call list \<Rightarrow> gv_call \<Rightarrow> string option"
  graphString :: "gv_call list \<Rightarrow> string"

text \<open>One declaration: the error of the library, or the graph with the declaration.\<close>

definition issue :: "gographviz \<Rightarrow> gv_call list \<Rightarrow> gv_call \<Rightarrow> string + gv_call list" where
  "issue lib graph c =
     (case addErr lib graph c of Some err \<Rightarrow> Inl err | None \<Rightarrow> Inr (graph @ [c]))"

subsection \<open>generateGraph\<close>

text \<open>The raw string literal \<^verbatim>\<open>\"\<close>, a backslash and a double quote.\<close>

definition bq :: string where
  "bq = [CHR 0x5C, CHR 0x22]"

text \<open>Line 318; a key that is not in the map literal reads as the empty string.\<close>

definition colors :: "string \<Rightarrow> string" where
  "colors k =
     (if k = ''LDS'' then ''#4285F4''
      else if k = ''RDS'' then ''#FBBC04''
      else if k = ''CDS'' then ''#34A853''
      else '''')"

text \<open>Line 322: the declaration of one node; \<^verbatim>\<open>node[0:3]\<close> is \<open>take 3 node\<close>.\<close>

definition nodeCall :: "string \<Rightarrow> string \<Rightarrow> gv_call" where
  "nodeCall name node =
     AddNode ''G'' (bq @ name @ bq)
       [(''label'', node), (''fontcolor'', ''white''), (''fontname'', ''Roboto''),
        (''shape'', ''box''),
        (''style'', bq @ [CHR 0x22] @ ''filled,rounded'' @ [CHR 0x22] @ bq),
        (''color'', bq @ colors (take 3 node) @ bq),
        (''fillcolor'', bq @ colors (take 3 node) @ bq)]"

text \<open>Line 330: the declaration of one edge.\<close>

definition edgeCall :: "string \<Rightarrow> string \<Rightarrow> gv_call" where
  "edgeCall src dst =
     AddEdge (bq @ src @ bq) (bq @ dst @ bq) True
       [(''penwidth'', ''0.3''), (''arrowsize'', ''0.3'')]"

text \<open>
  Lines 321-325: the entries of one node map, in the order in which \<^verbatim>\<open>range\<close> yields
  them. The result is \<open>Inl err\<close> when the function returns \<open>err\<close> at once, \<open>Inr\<close> of the
  graph to go on with. Slicing an id shorter than three bytes panics.
\<close>

fun addNodes ::
  "gographviz \<Rightarrow> gv_call list \<Rightarrow> (string \<times> string) list \<Rightarrow> (string + gv_call list) outcome"
  where
  "addNodes lib graph [] = Returns (Inr graph)"
| "addNodes lib graph ((name, node) # rest) =
     (if length node < 3 then Panics
      else case issue lib graph (nodeCall name node) of
             Inl err \<Rightarrow> Returns (Inl err)
           | Inr graph' \<Rightarrow> addNodes lib graph' rest)"

text \<open>
  Line 320. \<open>rangeNodes\<close> stands for the \<^verbatim>\<open>range\<close> statement over a
  \<^verbatim>\<open>map[string]string\<close>: the entries of the map in the order of this traversal, which
  the language does not fix.
\<close>

fun addNodeMaps ::
  "gographviz \<Rightarrow> ((string \<rightharpoonup> string) \<Rightarrow> (string \<times> string) list) \<Rightarrow> gv_call list
     \<Rightarrow> (string \<rightharpoonup> string) list \<Rightarrow> (string + gv_call list) outcome" where
  "addNodeMaps lib rangeNodes graph [] = Returns (Inr graph)"
| "addNodeMaps lib rangeNodes graph (xDS # rest) =
     (case addNodes lib graph (rangeNodes xDS) of
        Panics \<Rightarrow> Panics
      | Returns (Inl err) \<Rightarrow> Returns (Inl err)
      | Returns (Inr graph') \<Rightarrow> addNodeMaps lib rangeNodes graph' rest)"

text \<open>Lines 329-333: the members of one set, in the order of \<^verbatim>\<open>Values()\<close>.\<close>

fun addEdges :: "gographviz \<Rightarrow> gv_call list \<Rightarrow> string \<Rightarrow> string list \<Rightarrow> string + gv_call list"
  where
  "addEdges lib graph src [] = Inr graph"
| "addEdges lib graph src (dst # rest) =
     (case issue lib graph (edgeCall src dst) of
        Inl err \<Rightarrow> Inl err
      | Inr graph' \<Rightarrow> addEdges lib graph' src rest)"

text \<open>Lines 328-334: the entries of one relation map.\<close>

fun addRelation ::
  "gographviz \<Rightarrow> gv_call list \<Rightarrow> (string \<times> treeset) list \<Rightarrow> string + gv_call list" where
  "addRelation lib graph [] = Inr graph"
| "addRelation lib graph ((src, s) # rest) =
     (case addEdges lib graph src (Values s) of
        Inl err \<Rightarrow> Inl err
      | Inr graph' \<Rightarrow> addRelation lib graph' rest)"

text \<open>Line 327; \<open>rangeRelations\<close> is the \<^verbatim>\<open>range\<close> statement over a relation map.\<close>

fun addRelationMaps ::
  "gographviz \<Rightarrow> ((string \<rightharpoonup> treeset) \<Rightarrow> (string \<times> treeset) list) \<Rightarrow> gv_call list
     \<Rightarrow> (string \<rightharpoonup> treeset) list \<Rightarrow> string + gv_call list" where
  "addRelationMaps lib rangeRelations graph [] = Inr graph"
| "addRelationMaps lib rangeRelations graph (r # rest) =
     (case addRelation lib graph (rangeRelations r) of
        Inl err \<Rightarrow> Inl err
      | Inr graph' \<Rightarrow> addRelationMaps lib rangeRelations graph' rest)"

text \<open>\<^verbatim>\<open>generateGraph\<close>: the pair of the text and the error, or a panic.\<close>

definition generateGraph ::
  "gographviz \<Rightarrow> ((string \<rightharpoonup> string) \<Rightarrow> (string \<times> string) list)
     \<Rightarrow> ((string \<rightharpoonup> treeset) \<Rightarrow> (string \<times> treeset) list) \<Rightarrow> GraphData
     \<Rightarrow> (string \<times> string option) outcome" where
  "generateGraph lib rangeNodes rangeRelations data =
     (case parseStringErr lib of
        Some err \<Rightarrow> Returns ('''', Some err)
      | None \<Rightarrow>
     (case analyseErr lib of
        Some err \<Rightarrow> Returns ('''', Some err)
      | None \<Rightarrow>
     (case issue lib [] (AddAttr ''G'' ''rankdir'' ''LR'') of
        Inl err \<Rightarrow> Returns ('''', Some err)
      | Inr graph \<Rightarrow>
     (case addNodeMaps lib rangeNodes graph (nodes data) of
        Panics \<Rightarrow> Panics
      | Returns (Inl err) \<Rightarrow> Returns ('''', Some err)
      | Returns (Inr graph') \<Rightarrow>
     (case addRelationMaps lib rangeRelations graph' (relations data) of
        Inl err \<Rightarrow> Returns ('''', Some err)
      | Inr graph'' \<Rightarrow> Returns (graphString lib graph'', None))))))"

text \<open>
  The declarations in the order of the source: the layout attribute, the nodes map by
  map in the order of the traversal, the edges relation by relation in the order of the
  traversal, the members of each set in the order of \<open>Values\<close>.
\<close>

definition nodeCalls ::
  "((string \<rightharpoonup> string) \<Rightarrow> (string \<times> string) list) \<Rightarrow> GraphData \<Rightarrow> gv_call list" where
  "nodeCalls rangeNodes data =
     concat (map (\<lambda>xDS. map (\<lambda>(name, node). nodeCall name node) (rangeNodes xDS))
               (nodes data))"

definition edgeCalls ::
  "((string \<rightharpoonup> treeset) \<Rightarrow> (string \<times> treeset) list) \<Rightarrow> GraphData \<Rightarrow> gv_call list" where
  "edgeCalls rangeRelations data =
     concat (map (\<lambda>r. concat (map (\<lambda>(src, s). map (edgeCall src) (Values s))
                                 (rangeRelations r)))
               (relations data))"

definition graphCalls ::
  "((string \<rightharpoonup> string) \<Rightarrow> (string \<times> string) list)
     \<Rightarrow> ((string \<rightharpoonup> treeset) \<Rightarrow> (string \<times> treeset) list) \<Rightarrow> GraphData \<Rightarrow> gv_call list"
  where
  "graphCalls rangeNodes rangeRelations data =
     AddAttr ''G'' ''rankdir'' ''LR'' # nodeCalls rangeNodes data
       @ edgeCalls rangeRelations data"

text \<open>
  A traversal of a map yields every entry of the map once: the one constraint of the
  language on \<^verbatim>\<open>range\<close>.
\<close>

definition rangeOf :: "('k \<rightharpoonup> 'v) \<Rightarrow> ('k \<times> 'v) list \<Rightarrow> bool" where
  "rangeOf m entries \<longleftrightarrow> distinct (map fst entries) \<and> map_of entries = m"

subsection \<open>openBrowser and visualize\<close>

text \<open>
  The operating system is a parameter: the value of \<^verbatim>\<open>runtime.GOOS\<close>, the error of
  \<^verbatim>\<open>exec.Command(name, args...).Start()\<close>, of \<^verbatim>\<open>os.Create\<close> and of \<^verbatim>\<open>f.Write\<close>.
\<close>

record platform =
  GOOS :: string
  Start :: "string \<Rightarrow> string list \<Rightarrow> string option"
  createErr :: "string option"
  writeErr :: "string option"

definition openBrowser :: "platform \<Rightarrow> string \<Rightarrow> string option" where
  "openBrowser os url =
     (if GOOS os = ''linux'' then Start os ''xdg-open'' [url]
      else if GOOS os = ''windows''
           then Start os ''rundll32'' [''url.dll,FileProtocolHandler'', url]
      else if GOOS os = ''darwin'' then Start os ''open'' [url]
      else Some ''unsupported platform'')"

text \<open>
  What \<^verbatim>\<open>visualize\<close> acts on: the files by name, the urls handed to a viewer, and the
  standard output. \<^verbatim>\<open>os.Create\<close> truncates the file; a failed write leaves it as
  created.
\<close>

record world =
  files :: "string \<rightharpoonup> string"
  launched :: "string list"
  stdout :: string

definition saveDot :: "platform \<Rightarrow> string \<Rightarrow> world \<Rightarrow> world \<times> string option" where
  "saveDot os dot w =
     (case createErr os of
        Some err \<Rightarrow> (w, Some err)
      | None \<Rightarrow>
          (let w' = w\<lparr>files := (files w)(''config_graph.dot'' \<mapsto> '''')\<rparr> in
           case writeErr os of
             Some err \<Rightarrow> (w', Some err)
           | None \<Rightarrow>
               (w'\<lparr>files := (files w')(''config_graph.dot'' \<mapsto> dot),
                   stdout := stdout w' @ ''Config graph has been saved to config_graph.dot''
                               @ newline\<rparr>, None)))"

definition visualize ::
  "(string \<Rightarrow> string + (string \<times> json) list) \<Rightarrow> gographviz
     \<Rightarrow> ((string \<rightharpoonup> string) \<Rightarrow> (string \<times> string) list)
     \<Rightarrow> ((string \<rightharpoonup> treeset) \<Rightarrow> (string \<times> treeset) list) \<Rightarrow> platform
     \<Rightarrow> string \<Rightarrow> bool \<Rightarrow> world \<Rightarrow> (world \<times> string option) outcome" where
  "visualize Unmarshal lib rangeNodes rangeRelations os config monitor w =
     (case parseXdsRelationship Unmarshal config of
        Panics \<Rightarrow> Panics
      | Returns (graphData, Some err) \<Rightarrow> Returns (w, Some err)
      | Returns (graphData, None) \<Rightarrow>
     (case generateGraph lib rangeNodes rangeRelations graphData of
        Panics \<Rightarrow> Panics
      | Returns (dot, Some err) \<Rightarrow> Returns (w, Some err)
      | Returns (dot, None) \<Rightarrow>
          (if \<not> monitor
           then (let url = ''http://dreampuf.github.io/GraphvizOnline/#'' @ dot in
                 case openBrowser os url of
                   Some err \<Rightarrow> Returns (w, Some err)
                 | None \<Rightarrow> Returns (saveDot os dot (w\<lparr>launched := launched w @ [url]\<rparr>)))
           else Returns (saveDot os dot w))))"

section \<open>The snapshot as the specification describes it\<close>

text \<open>
  The data model of the specification, read off a decoded document: a listener is a name
  and its filter chains, each the route-table names of its filters; a route table is a
  name and its virtual hosts, each the actions of its routes; a cluster is a name. A
  decoder answers \<open>None\<close> when an expected nested field is missing or has the wrong
  shape. These definitions are what the extractor is compared with below.
\<close>

definition field :: "string \<Rightarrow> json \<Rightarrow> json" where
  "field k j = (case j of JObject m \<Rightarrow> index m k | _ \<Rightarrow> JNull)"

definition str :: "json \<Rightarrow> string option" where
  "str j = (case j of JString s \<Rightarrow> Some s | _ \<Rightarrow> None)"

definition arr :: "json \<Rightarrow> json list option" where
  "arr j = (case j of JArray xs \<Rightarrow> Some xs | _ \<Rightarrow> None)"

definition decodeFilter :: "json \<Rightarrow> string option" where
  "decodeFilter f = str (field ''routeConfigName'' (field ''rds'' (field ''typedConfig'' f)))"

definition decodeFilterChain :: "json \<Rightarrow> string list option" where
  "decodeFilterChain fc =
     (case arr (field ''filters'' fc) of
        None \<Rightarrow> None
      | Some fs \<Rightarrow> those (map decodeFilter fs))"

definition decodeListener :: "json \<Rightarrow> (string \<times> string list list) option" where
  "decodeListener l =
     (let detail = field ''listener'' (field ''activeState'' l) in
      case str (field ''name'' detail) of
        None \<Rightarrow> None
      | Some name \<Rightarrow>
          (case arr (field ''filterChains'' detail) of
             None \<Rightarrow> None
           | Some fcs \<Rightarrow>
               (case those (map decodeFilterChain fcs) of
                  None \<Rightarrow> None
                | Some names \<Rightarrow> Some (name, names))))"

datatype action = Cluster string | WeightedClusters "string list"

fun actionClusters :: "action \<Rightarrow> string list" where
  "actionClusters (Cluster c) = [c]"
| "actionClusters (WeightedClusters cs) = cs"

definition decodeAction :: "json \<Rightarrow> action option" where
  "decodeAction r =
     (case field ''route'' r of
        JObject a \<Rightarrow>
          (case map_of a ''weightedClusters'' of
             None \<Rightarrow> map_option Cluster (str (index a ''cluster''))
           | Some wc \<Rightarrow>
               (case arr (field ''clusters'' wc) of
                  None \<Rightarrow> None
                | Some cs \<Rightarrow>
                    map_option WeightedClusters
                      (those (map (\<lambda>c. str (field ''name'' c)) cs))))
      | _ \<Rightarrow> None)"

definition decodeVirtualHost :: "json \<Rightarrow> action list option" where
  "decodeVirtualHost vh =
     (case arr (field ''routes'' vh) of
        None \<Rightarrow> None
      | Some rs \<Rightarrow> those (map decodeAction rs))"

definition decodeRouteTable :: "json \<Rightarrow> (string \<times> action list list) option" where
  "decodeRouteTable rt =
     (let routeConfig = field ''routeConfig'' rt in
      case str (field ''name'' routeConfig) of
        None \<Rightarrow> None
      | Some name \<Rightarrow>
          (case arr (field ''virtualHosts'' routeConfig) of
             None \<Rightarrow> None
           | Some vhs \<Rightarrow>
               (case those (map decodeVirtualHost vhs) of
                  None \<Rightarrow> None
                | Some hosts \<Rightarrow> Some (name, hosts))))"

definition decodeCluster :: "json \<Rightarrow> string option" where
  "decodeCluster c = str (field ''name'' (field ''cluster'' c))"

text \<open>
  A snapshot is well formed when every field that the extraction reads is present with
  the expected shape: \<open>config\<close> is an array of objects with an array \<open>xdsConfig\<close> of
  objects; in such an object, the value under \<open>listenerConfig\<close>, \<open>routeConfig\<close> or
  \<open>clusterConfig\<close> is an object all of whose values are arrays of listeners, route
  tables or clusters that decode.
\<close>

definition categoryDecodes :: "string \<Rightarrow> (json \<Rightarrow> bool) option" where
  "categoryDecodes key =
     (if key = ''listenerConfig'' then Some (\<lambda>x. decodeListener x \<noteq> None)
      else if key = ''routeConfig'' then Some (\<lambda>x. decodeRouteTable x \<noteq> None)
      else if key = ''clusterConfig'' then Some (\<lambda>x. decodeCluster x \<noteq> None)
      else None)"

definition wellFormedValues :: "(json \<Rightarrow> bool) \<Rightarrow> json \<Rightarrow> bool" where
  "wellFormedValues ok v =
     (case v of
        JObject entries \<Rightarrow>
          list_all (\<lambda>(k, xs). case xs of JArray ys \<Rightarrow> list_all ok ys | _ \<Rightarrow> False) entries
      | _ \<Rightarrow> False)"

definition wellFormedEntry :: "string \<times> json \<Rightarrow> bool" where
  "wellFormedEntry e =
     (case e of (key, v) \<Rightarrow>
        if key = ''status'' then True
        else case categoryDecodes key of
               None \<Rightarrow> True
             | Some ok \<Rightarrow> wellFormedValues ok v)"

definition wellFormedXds :: "json \<Rightarrow> bool" where
  "wellFormedXds xds =
     (case xds of JObject entries \<Rightarrow> list_all wellFormedEntry entries | _ \<Rightarrow> False)"

definition wellFormedClient :: "json \<Rightarrow> bool" where
  "wellFormedClient config =
     (case arr (field ''xdsConfig'' config) of
        None \<Rightarrow> False
      | Some xs \<Rightarrow> list_all wellFormedXds xs)"

definition wellFormed :: "(string \<times> json) list \<Rightarrow> bool" where
  "wellFormed data =
     (case arr (index data ''config'') of
        None \<Rightarrow> False
      | Some configs \<Rightarrow> list_all wellFormedClient configs)"

text \<open>A decoder that fails is a type assertion that panics.\<close>

definition ofOption :: "'a option \<Rightarrow> 'a outcome" where
  "ofOption x = (case x of None \<Rightarrow> Panics | Some a \<Rightarrow> Returns a)"

text \<open>A decoder that answers with a given result, to run the extractor on a document.\<close>

definition decodedAs ::
  "string + (string \<times> json) list \<Rightarrow> string \<Rightarrow> string + (string \<times> json) list" where
  "decodedAs r js = r"

section \<open>Invariants of the extraction\<close>

text \<open>
  A predicate on the maps is preserved by the body of a loop; the short ids of a node map
  all carry the tag of the map; the sets of a relation map are strictly ascending.
\<close>

definition preserves ::
  "(xds_maps \<Rightarrow> bool) \<Rightarrow> (nat \<Rightarrow> xds_maps \<Rightarrow> json \<Rightarrow> xds_maps outcome) \<Rightarrow> bool"
  where
  "preserves P step \<longleftrightarrow> (\<forall>idx m x m'. P m \<longrightarrow> step idx m x = Returns m' \<longrightarrow> P m')"

definition shortIds :: "string \<Rightarrow> (string \<rightharpoonup> string) \<Rightarrow> bool" where
  "shortIds tag f \<longleftrightarrow> (\<forall>name v. f name = Some v \<longrightarrow> (\<exists>k. v = tag @ Itoa k))"

definition strictSets :: "(string \<rightharpoonup> treeset) \<Rightarrow> bool" where
  "strictSets f \<longleftrightarrow> (\<forall>name s. f name = Some s \<longrightarrow> sorted_wrt (<) (Values s))"

definition graphInvariant :: "xds_maps \<Rightarrow> bool" where
  "graphInvariant m \<longleftrightarrow>
     shortIds ''LDS'' (lds m) \<and> shortIds ''RDS'' (rds m) \<and> shortIds ''CDS'' (cds m) \<and>
     strictSets (ldsToRds m) \<and> strictSets (rdsToCds m)"

section \<open>Notions used in the statements\<close>

text \<open>A decimal numeral: digits, at least one.\<close>

definition decimal :: "string \<Rightarrow> bool" where
  "decimal d \<longleftrightarrow> d \<noteq> [] \<and> list_all (\<lambda>c. c \<in> set ''0123456789'') d"

text \<open>The declaration of a node with a given label and colour, as line 322 builds it.\<close>

definition styledNode :: "string \<Rightarrow> string \<Rightarrow> string \<Rightarrow> gv_call" where
  "styledNode name label color =
     AddNode ''G'' (bq @ name @ bq)
       [(''label'', label), (''fontcolor'', ''white''), (''fontname'', ''Roboto''),
        (''shape'', ''box''),
        (''style'', bq @ [CHR 0x22] @ ''filled,rounded'' @ [CHR 0x22] @ bq),
        (''color'', bq @ color @ bq),
        (''fillcolor'', bq @ color @ bq)]"

text \<open>
  The ids that one array gives to the names of its elements: the tag and the index of
  the element, a later element of the same name overwriting an earlier one.
\<close>

fun assignIds ::
  "string \<Rightarrow> nat \<Rightarrow> string list \<Rightarrow> (string \<rightharpoonup> string) \<Rightarrow> (string \<rightharpoonup> string)"
  where
  "assignIds tag k [] f = f"
| "assignIds tag k (n # ns) f = assignIds tag (Suc k) ns (f(n \<mapsto> tag @ Itoa k))"

text \<open>
  The summary as the specification describes it: the stream type of a client (\<open>None\<close>
  when the metadata holds something that is not a string), its id, the status lines of
  its entries, the status column (the first line on the row of the client, every further
  line on a row of its own with empty id and type columns, a bare newline when there is no
  line) and the text printed for the client.
\<close>

definition streamType :: "'d ClientConfig \<Rightarrow> string option" where
  "streamType config =
     (case GetNode config of
        None \<Rightarrow> Some ''''
      | Some node \<Rightarrow>
          (case index (GetMetadata node) ''XDS_STREAM_TYPE'' of
             JNull \<Rightarrow> Some ''''
           | JString t \<Rightarrow> Some t
           | _ \<Rightarrow> None))"

definition clientId :: "'d ClientConfig \<Rightarrow> string" where
  "clientId config = (case GetNode config of None \<Rightarrow> '''' | Some node \<Rightarrow> GetId node)"

definition statusLines :: "(ConfigStatus \<Rightarrow> string) \<Rightarrow> 'd PerXdsConfig list \<Rightarrow> string list" where
  "statusLines String xs =
     map (\<lambda>e. firstPopulated e @ ''   '' @ String (GetStatus e))
       (filter (\<lambda>e. String (GetStatus e) \<noteq> '''' \<and> firstPopulated e \<noteq> '''') xs)"

definition statusColumn :: "string list \<Rightarrow> string" where
  "statusColumn lines =
     (case lines of
        [] \<Rightarrow> newline
      | l # rest \<Rightarrow> pad 30 l @ '' '' @ newline @ concat (map (row '''' '''') rest))"

definition clientRow :: "(ConfigStatus \<Rightarrow> string) \<Rightarrow> 'd ClientConfig \<Rightarrow> string" where
  "clientRow String config =
     (case streamType config of
        None \<Rightarrow> ''''
      | Some t \<Rightarrow>
          (case GetXdsConfig config of
             None \<Rightarrow> if GetNode config \<noteq> None then row (clientId config) t ''N/A'' else ''''
           | Some xs \<Rightarrow>
               pad 50 (clientId config) @ '' '' @ pad 30 t @ '' '' @
               statusColumn (statusLines String xs)))"

text \<open>
  The renderer as the statements describe it: a list of declarations that is handed to the
  graph library one declaration after the other. \<open>ShortId\<close> stands for a node whose id is
  shorter than three bytes, at which the slice expression \<^verbatim>\<open>node[0:3]\<close> panics. A run
  stops at the first declaration that the library refuses, with the error of the library
  and the empty text; a run that comes to its end returns the text of the library. The
  declarations of a graph are the layout attribute, the nodes map by map and the edges
  relation by relation, each map in the order of its traversal and each set in the order
  of \<^verbatim>\<open>Values()\<close>.
\<close>

datatype decl = Declare gv_call | ShortId

fun run :: "gographviz \<Rightarrow> gv_call list \<Rightarrow> decl list \<Rightarrow> (string \<times> string option) outcome" where
  "run lib graph [] = Returns (graphString lib graph, None)"
| "run lib graph (ShortId # rest) = Panics"
| "run lib graph (Declare c # rest) =
     (case addErr lib graph c of
        Some err \<Rightarrow> Returns ('''', Some err)
      | None \<Rightarrow> run lib (graph @ [c]) rest)"

definition render :: "gographviz \<Rightarrow> decl list \<Rightarrow> (string \<times> string option) outcome" where
  "render lib decls =
     (case parseStringErr lib of
        Some err \<Rightarrow> Returns ('''', Some err)
      | None \<Rightarrow>
          (case analyseErr lib of
             Some err \<Rightarrow> Returns ('''', Some err)
           | None \<Rightarrow> run lib [] decls))"

definition nodeDecl :: "string \<Rightarrow> string \<Rightarrow> decl" where
  "nodeDecl name node =
     (if length node < 3 then ShortId
      else Declare (styledNode name node (colors (take 3 node))))"

definition nodeDecls ::
  "((string \<rightharpoonup> string) \<Rightarrow> (string \<times> string) list) \<Rightarrow> GraphData \<Rightarrow> decl list" where
  "nodeDecls rangeNodes data =
     concat (map (\<lambda>xDS. map (\<lambda>(name, node). nodeDecl name node) (rangeNodes xDS))
               (nodes data))"

definition edgeDecls ::
  "((string \<rightharpoonup> treeset) \<Rightarrow> (string \<times> treeset) list) \<Rightarrow> GraphData \<Rightarrow> decl list" where
  "edgeDecls rangeRelations data =
     concat (map (\<lambda>r. concat (map (\<lambda>(src, s). map (\<lambda>dst. Declare (edgeCall src dst)) (Values s))
                                 (rangeRelations r)))
               (relations data))"

definition declarations ::
  "((string \<rightharpoonup> string) \<Rightarrow> (string \<times> string) list)
     \<Rightarrow> ((string \<rightharpoonup> treeset) \<Rightarrow> (string \<times> treeset) list) \<Rightarrow> GraphData \<Rightarrow> decl list"
  where
  "declarations rangeNodes rangeRelations data =
     Declare (AddAttr ''G'' ''rankdir'' ''LR'') # nodeDecls rangeNodes data
       @ edgeDecls rangeRelations data"

text \<open>
  The route tables of a snapshot, in the order in which the extraction reads them: those
  of every client, of every element of its \<open>xdsConfig\<close>, of every array under the key
  \<open>routeConfig\<close>, each with its name and the actions of its virtual hosts. The
  reference set of a route table holds the cluster names of its routes, each once, in
  ascending order: the one name of a single-cluster action, the names of a weighted set.
  The reference sets of a list of tables are stored by name, so that of two tables of the
  same name the later one counts.
\<close>

definition referenceSet :: "action list list \<Rightarrow> string list" where
  "referenceSet hosts = sort (remdups (concat (map actionClusters (concat hosts))))"

definition referencesOf :: "(string \<times> action list list) list \<Rightarrow> (string \<rightharpoonup> treeset)" where
  "referencesOf tables = (\<lambda>name. map_option referenceSet (map_of (rev tables) name))"

definition tablesOfArray :: "json \<Rightarrow> (string \<times> action list list) list" where
  "tablesOfArray v = (case v of JArray xs \<Rightarrow> List.map_filter decodeRouteTable xs | _ \<Rightarrow> [])"

definition tablesOfValue :: "json \<Rightarrow> (string \<times> action list list) list" where
  "tablesOfValue v =
     (case v of JObject entries \<Rightarrow> concat (map (\<lambda>(key, xs). tablesOfArray xs) entries) | _ \<Rightarrow> [])"

definition tablesOfXds :: "json \<Rightarrow> (string \<times> action list list) list" where
  "tablesOfXds xds =
     (case xds of
        JObject entries \<Rightarrow>
          concat (map (\<lambda>(key, v). if key = ''routeConfig'' then tablesOfValue v else []) entries)
      | _ \<Rightarrow> [])"

definition tablesOfClient :: "json \<Rightarrow> (string \<times> action list list) list" where
  "tablesOfClient config =
     (case arr (field ''xdsConfig'' config) of
        None \<Rightarrow> []
      | Some xs \<Rightarrow> concat (map tablesOfXds xs))"

definition routeTablesOf :: "(string \<times> json) list \<Rightarrow> (string \<times> action list list) list" where
  "routeTablesOf data =
     (case arr (index data ''config'') of
        None \<Rightarrow> []
      | Some configs \<Rightarrow> concat (map tablesOfClient configs))"

section \<open>Documents used below\<close>

text \<open>
  The example of the specification: listener \<open>L1\<close> refers to route table \<open>R1\<close>, whose
  one route goes to cluster \<open>C1\<close>; and the graph extracted from it.
\<close>

definition hcmFilter :: "string \<Rightarrow> json" where
  "hcmFilter routeConfigName =
     JObject [(''name'', JString ''envoy.http_connection_manager''),
              (''typedConfig'', JObject [(''@type'', JString ''HttpConnectionManager''),
                (''rds'', JObject [(''routeConfigName'', JString routeConfigName)])])]"

definition exampleSnapshot :: "(string \<times> json) list" where
  "exampleSnapshot =
     [(''config'', JArray [JObject [(''xdsConfig'', JArray
        [JObject [(''status'', JString ''SYNCED''),
                  (''listenerConfig'', JObject [(''dynamicListeners'', JArray
                     [JObject [(''activeState'', JObject [(''listener'', JObject
                        [(''name'', JString ''L1''),
                         (''filterChains'', JArray
                            [JObject [(''filters'', JArray [hcmFilter ''R1''])]])])])]])])],
         JObject [(''status'', JString ''SYNCED''),
                  (''routeConfig'', JObject [(''dynamicRouteConfigs'', JArray
                     [JObject [(''routeConfig'', JObject
                        [(''name'', JString ''R1''),
                         (''virtualHosts'', JArray
                            [JObject [(''routes'', JArray
                               [JObject [(''route'', JObject
                                  [(''cluster'', JString ''C1'')])]])]])])]])])],
         JObject [(''status'', JString ''SYNCED''),
                  (''clusterConfig'', JObject [(''dynamicActiveClusters'', JArray
                     [JObject [(''cluster'', JObject [(''name'', JString ''C1'')])]])])]])]])]"

definition exampleGraph :: GraphData where
  "exampleGraph =
     \<lparr>nodes = [[''L1'' \<mapsto> ''LDS0''], [''R1'' \<mapsto> ''RDS0''], [''C1'' \<mapsto> ''CDS0'']],
      relations = [[''L1'' \<mapsto> [''R1'']], [''R1'' \<mapsto> [''C1'']]]\<rparr>"

definition snapshotWithoutName :: "(string \<times> json) list" where
  "snapshotWithoutName =
     [(''config'', JArray [JObject [(''xdsConfig'', JArray
        [JObject [(''status'', JString ''SYNCED''),
                  (''listenerConfig'', JObject [(''dynamicListeners'', JArray
                     [JObject [(''activeState'', JObject [(''listener'', JObject
                        [(''filterChains'', JArray [])])])]])])]])]])]"

text \<open>Builders of documents, and documents for the cases examined below.\<close>

definition listenerJson :: "string \<Rightarrow> json list \<Rightarrow> json" where
  "listenerJson name filterChains =
     JObject [(''activeState'', JObject [(''listener'', JObject
        [(''name'', JString name), (''filterChains'', JArray filterChains)])])]"

definition listenersEntry :: "json list \<Rightarrow> json" where
  "listenersEntry listeners =
     JObject [(''status'', JString ''SYNCED''),
              (''listenerConfig'', JObject [(''dynamicListeners'', JArray listeners)])]"

definition clientJson :: "json list \<Rightarrow> json" where
  "clientJson xdsConfig = JObject [(''xdsConfig'', JArray xdsConfig)]"

definition twoClientsSnapshot :: "(string \<times> json) list" where
  "twoClientsSnapshot =
     [(''config'', JArray [clientJson [listenersEntry [listenerJson ''A'' []]],
                          clientJson [listenersEntry [listenerJson ''B'' []]]])]"

definition tcpFilter :: json where
  "tcpFilter =
     JObject [(''name'', JString ''envoy.tcp_proxy''),
              (''typedConfig'', JObject [(''@type'', JString ''TcpProxy''),
                                        (''cluster'', JString ''C1'')])]"

definition tcpSnapshot :: "(string \<times> json) list" where
  "tcpSnapshot =
     [(''config'', JArray [clientJson [listenersEntry
        [listenerJson ''L1'' [JObject [(''filters'', JArray [tcpFilter])]]]]])]"

definition listenerWithoutChains :: json where
  "listenerWithoutChains =
     JObject [(''activeState'', JObject [(''listener'', JObject [(''name'', JString ''L1'')])])]"

definition weightedRouteTable :: json where
  "weightedRouteTable =
     JObject [(''routeConfig'', JObject
        [(''name'', JString ''R1''),
         (''virtualHosts'', JArray
            [JObject [(''routes'', JArray
               [JObject [(''route'', JObject [(''cluster'', JString ''C2'')])],
                JObject [(''route'', JObject [(''weightedClusters'', JObject
                   [(''clusters'', JArray
                      [JObject [(''name'', JString ''B''), (''weight'', JNumber 50)],
                       JObject [(''name'', JString ''A''), (''weight'', JNumber 50)]])])])]])],
             JObject [(''routes'', JArray
               [JObject [(''route'', JObject [(''cluster'', JString ''B'')])]])]])])]"

definition routeTableJson :: "string \<Rightarrow> json list \<Rightarrow> json" where
  "routeTableJson name virtualHosts =
     JObject [(''routeConfig'', JObject
        [(''name'', JString name), (''virtualHosts'', JArray virtualHosts)])]"

definition clusterJson :: "string \<Rightarrow> json" where
  "clusterJson name = JObject [(''cluster'', JObject [(''name'', JString name)])]"

definition twoClientsGraph :: GraphData where
  "twoClientsGraph =
     \<lparr>nodes = [[''A'' \<mapsto> ''LDS0'', ''B'' \<mapsto> ''LDS0''], Map.empty, Map.empty],
      relations = [[''A'' \<mapsto> [], ''B'' \<mapsto> []], Map.empty]\<rparr>"

definition singleRoute :: "string \<Rightarrow> json" where
  "singleRoute cluster = JObject [(''route'', JObject [(''cluster'', JString cluster)])]"

definition weightedRoute :: "json list \<Rightarrow> json" where
  "weightedRoute clusters =
     JObject [(''route'', JObject [(''weightedClusters'', JObject
                [(''clusters'', JArray clusters)])])]"

text \<open>
  The traversal of a map that visits the keys in the order of a given list, and a graph
  library to run the renderer with: it accepts every declaration and writes one line for
  each, in the order of the declarations. It stands for no particular library.
\<close>

definition rangeInOrder :: "'k list \<Rightarrow> ('k \<rightharpoonup> 'v) \<Rightarrow> ('k \<times> 'v) list" where
  "rangeInOrder ks m = List.map_filter (\<lambda>k. map_option (Pair k) (m k)) ks"

fun listingLine :: "gv_call \<Rightarrow> string" where
  "listingLine (AddAttr g k v) = k @ ''='' @ v @ newline"
| "listingLine (AddNode g name attrs) = name @ newline"
| "listingLine (AddEdge src dst directed attrs) = src @ '' -> '' @ dst @ newline"

definition listingLibrary :: gographviz where
  "listingLibrary =
     \<lparr>parseStringErr = None, analyseErr = None, addErr = (\<lambda>graph c. None),
      graphString = (\<lambda>graph. concat (map listingLine graph))\<rparr>"

definition twoListenersGraph :: GraphData where
  "twoListenersGraph =
     \<lparr>nodes = [[''A'' \<mapsto> ''LDS0'', ''B'' \<mapsto> ''LDS1''], [''R1'' \<mapsto> ''RDS0''], Map.empty],
      relations = [[''A'' \<mapsto> [''R1''], ''B'' \<mapsto> [''R1'']], [''R1'' \<mapsto> []]]\<rparr>"

definition weightedSnapshot :: "(string \<times> json) list" where
  "weightedSnapshot =
     [(''config'', JArray [clientJson
        [JObject [(''status'', JString ''SYNCED''),
                  (''routeConfig'', JObject [(''dynamicRouteConfigs'',
                                             JArray [weightedRouteTable])])]]])]"

definition weightedGraph :: GraphData where
  "weightedGraph =
     \<lparr>nodes = [Map.empty, [''R1'' \<mapsto> ''RDS0''], Map.empty],
      relations = [Map.empty, [''R1'' \<mapsto> [''A'', ''B'', ''C2'']]]\<rparr>"

text \<open>The list of keys gives a traversal of every map of the graph.\<close>

definition traversalOf :: "string list \<Rightarrow> GraphData \<Rightarrow> bool" where
  "traversalOf ks data \<longleftrightarrow>
     list_all (\<lambda>m. rangeOf m (rangeInOrder ks m)) (nodes data) \<and>
     list_all (\<lambda>r. rangeOf r (rangeInOrder ks r)) (relations data)"

text \<open>
  Two platforms, one on which the viewer cannot be started, and a world without files; the
  text that the listing library writes for the example graph.
\<close>

definition failingViewer :: platform where
  "failingViewer =
     \<lparr>GOOS = ''linux'', Start = (\<lambda>name args. Some ''executable file not found in $PATH''),
      createErr = None, writeErr = None\<rparr>"

definition workingViewer :: platform where
  "workingViewer =
     \<lparr>GOOS = ''linux'', Start = (\<lambda>name args. None), createErr = None, writeErr = None\<rparr>"

definition emptyWorld :: world where
  "emptyWorld = \<lparr>files = Map.empty, launched = [], stdout = ''''\<rparr>"

definition exampleDot :: string where
  "exampleDot =
     graphString listingLibrary
       [AddAttr ''G'' ''rankdir'' ''LR'',
        nodeCall ''L1'' ''LDS0'', nodeCall ''R1'' ''RDS0'', nodeCall ''C1'' ''CDS0'',
        edgeCall ''L1'' ''R1'', edgeCall ''R1'' ''C1'']"

text \<open>
  The \<open>String\<close> method of the enumeration \<^verbatim>\<open>ConfigStatus\<close> as generated from the
  protocol definition: the names of the five values, and the decimal number of a value
  without a name. Client entries to run the summarizer on.
\<close>

definition ItoaInt :: "int \<Rightarrow> string" where
  "ItoaInt i = (if i < 0 then ''-'' @ Itoa (nat (- i)) else Itoa (nat i))"

definition statusName :: "ConfigStatus \<Rightarrow> string" where
  "statusName s =
     (if s = 0 then ''UNKNOWN'' else if s = 1 then ''SYNCED'' else if s = 2 then ''NOT_SENT''
      else if s = 3 then ''STALE'' else if s = 4 then ''ERROR'' else ItoaInt s)"

definition adsNode :: Node where
  "adsNode = \<lparr>GetId = ''client-1'', GetMetadata = [(''XDS_STREAM_TYPE'', JString ''ADS'')]\<rparr>"

definition numberedNode :: Node where
  "numberedNode = \<lparr>GetId = ''client-2'', GetMetadata = [(''XDS_STREAM_TYPE'', JNumber 1)]\<rparr>"

definition syncedListeners :: "unit PerXdsConfig" where
  "syncedListeners =
     \<lparr>GetStatus = 1, GetClusterConfig = None, GetListenerConfig = Some (),
      GetRouteConfig = None, GetScopedRouteConfig = None\<rparr>"

definition staleClusters :: "unit PerXdsConfig" where
  "staleClusters =
     \<lparr>GetStatus = 3, GetClusterConfig = Some (), GetListenerConfig = None,
      GetRouteConfig = None, GetScopedRouteConfig = None\<rparr>"

definition noVariant :: "unit PerXdsConfig" where
  "noVariant =
     \<lparr>GetStatus = 1, GetClusterConfig = None, GetListenerConfig = None,
      GetRouteConfig = None, GetScopedRouteConfig = None\<rparr>"

definition anonymousClient :: "unit ClientConfig" where
  "anonymousClient = \<lparr>GetNode = None, GetXdsConfig = None\<rparr>"

definition idleClient :: "unit ClientConfig" where
  "idleClient = \<lparr>GetNode = Some adsNode, GetXdsConfig = None\<rparr>"

definition busyClient :: "unit ClientConfig" where
  "busyClient =
     \<lparr>GetNode = Some adsNode,
      GetXdsConfig = Some [syncedListeners, noVariant, staleClusters]\<rparr>"

definition numberedClient :: "unit ClientConfig" where
  "numberedClient = \<lparr>GetNode = Some numberedNode, GetXdsConfig = None\<rparr>"

definition header :: string where
  "header = row ''Client ID'' ''xDS stream type'' ''Config Status''"

text \<open>
  A snapshot in which two clients report a route table of the same name \<open>R1\<close>, the
  first with a route to cluster \<open>C1\<close> and the second with a route to \<open>C2\<close>, and the
  graph extracted from it.
\<close>

definition repeatedTableSnapshot :: "(string \<times> json) list" where
  "repeatedTableSnapshot =
     [(''config'', JArray
        [clientJson [JObject [(''status'', JString ''SYNCED''),
                              (''routeConfig'', JObject [(''dynamicRouteConfigs'', JArray
                                 [routeTableJson ''R1''
                                    [JObject [(''routes'', JArray [singleRoute ''C1''])]]])])]],
         clientJson [JObject [(''status'', JString ''SYNCED''),
                              (''routeConfig'', JObject [(''dynamicRouteConfigs'', JArray
                                 [routeTableJson ''R1''
                                    [JObject [(''routes'', JArray [singleRoute ''C2''])]]])])]]])]"

definition repeatedTableGraph :: GraphData where
  "repeatedTableGraph =
     \<lparr>nodes = [Map.empty, [''R1'' \<mapsto> ''RDS0''], Map.empty],
      relations = [Map.empty, [''R1'' \<mapsto> [''C2'']]]\<rparr>"

section \<open>Evaluation rules\<close>

lemma andThen_Returns [simp]: "andThen (Returns a) f = f a"
  by (simp add: andThen_def)

lemma andThen_Panics [simp]: "andThen Panics f = Panics"
  by (simp add: andThen_def)

lemma andThen_eq_Returns:
  "andThen x f = Returns b \<longleftrightarrow> (\<exists>a. x = Returns a \<and> f a = Returns b)"
  by (cases x) simp_all

lemma index_Nil [simp]: "index [] k = JNull"
  by (simp add: index_def)

lemma index_Cons [simp]: "index ((k', v) # m) k = (if k = k' then v else index m k)"
  by (simp add: index_def)

lemma asMap_simps [simp]:
  "asMap (JObject m) = Returns m"
  "asMap JNull = Panics"
  "asMap (JBool b) = Panics"
  "asMap (JNumber n) = Panics"
  "asMap (JString s) = Panics"
  "asMap (JArray xs) = Panics"
  by (simp_all add: asMap_def)

lemma asSlice_simps [simp]:
  "asSlice (JArray xs) = Returns xs"
  "asSlice JNull = Panics"
  "asSlice (JBool b) = Panics"
  "asSlice (JNumber n) = Panics"
  "asSlice (JString s) = Panics"
  "asSlice (JObject m) = Panics"
  by (simp_all add: asSlice_def)

lemma asString_simps [simp]:
  "asString (JString s) = Returns s"
  "asString JNull = Panics"
  "asString (JBool b) = Panics"
  "asString (JNumber n) = Panics"
  "asString (JArray xs) = Panics"
  "asString (JObject m) = Panics"
  by (simp_all add: asString_def)

section \<open>The extractor against the decoders\<close>

lemma ofOption_simps [simp]: "ofOption None = Panics" "ofOption (Some a) = Returns a"
  by (simp_all add: ofOption_def)

lemma set_Add [simp]: "set (Add x s) = insert x (set s)"
  by (auto simp: Add_def set_insort_key)

lemma strict_sorted_Add: "sorted_wrt (<) s \<Longrightarrow> sorted_wrt (<) (Add x s)"
  by (auto simp: Add_def strict_sorted_iff sorted_insort distinct_insort)

lemma set_fold_Add [simp]: "set (fold Add xs s) = set xs \<union> set s"
  by (induction xs arbitrary: s) auto

lemma strict_sorted_fold_Add: "sorted_wrt (<) s \<Longrightarrow> sorted_wrt (<) (fold Add xs s)"
  by (induction xs arbitrary: s) (auto simp: strict_sorted_Add)

lemma field_simps [simp]:
  "field k (JObject m) = index m k"
  "field k JNull = JNull" "field k (JBool b) = JNull" "field k (JNumber n) = JNull"
  "field k (JString s) = JNull" "field k (JArray xs) = JNull"
  by (simp_all add: field_def)

lemma str_simps [simp]:
  "str (JString s) = Some s"
  "str JNull = None" "str (JBool b) = None" "str (JNumber n) = None"
  "str (JArray xs) = None" "str (JObject m) = None"
  by (simp_all add: str_def)

lemma arr_simps [simp]:
  "arr (JArray xs) = Some xs"
  "arr JNull = None" "arr (JBool b) = None" "arr (JNumber n) = None"
  "arr (JString s) = None" "arr (JObject m) = None"
  by (simp_all add: arr_def)

lemma asString_str: "asString j = ofOption (str j)"
  by (cases j) simp_all

lemma asSlice_arr: "asSlice j = ofOption (arr j)"
  by (cases j) simp_all

lemma asMap_field_string:
  "andThen (asMap j) (\<lambda>m. asString (index m k)) = ofOption (str (field k j))"
  by (cases j) (simp_all add: asString_str)

lemma asMap_field_slice:
  "andThen (asMap j) (\<lambda>m. asSlice (index m k)) = ofOption (arr (field k j))"
  by (cases j) (simp_all add: asSlice_arr)

lemma asMap_field_map:
  "andThen (asMap j) (\<lambda>m. andThen (asMap (index m k)) f) = andThen (asMap (field k j)) f"
  by (cases j) simp_all

lemma andThen_asMap: "andThen (asMap j) f = (case j of JObject m \<Rightarrow> f m | _ \<Rightarrow> Panics)"
  by (cases j) simp_all

lemma filterRdsName_decode: "filterRdsName f = ofOption (decodeFilter f)"
  by (simp add: filterRdsName_def decodeFilter_def andThen_asMap asString_str split: json.split)

lemma scanFilters_decode:
  "scanFilters s fs =
     (case those (map decodeFilter fs) of None \<Rightarrow> Panics | Some ns \<Rightarrow> Returns (fold Add ns s))"
  by (induction fs arbitrary: s) (auto simp: filterRdsName_decode split: option.splits)

lemma filterchainFilters_decode: "filterchainFilters fc = ofOption (arr (field ''filters'' fc))"
  by (simp add: filterchainFilters_def asMap_field_slice)

lemma scanFilterChains_decode:
  "scanFilterChains s fcs =
     (case those (map decodeFilterChain fcs) of
        None \<Rightarrow> Panics
      | Some names \<Rightarrow> Returns (fold Add (concat names) s))"
  by (induction fcs arbitrary: s)
     (auto simp: filterchainFilters_decode scanFilters_decode decodeFilterChain_def
           split: option.splits)

lemma listenerDetail_field:
  "andThen (listenerDetail l) f = andThen (asMap (field ''listener'' (field ''activeState'' l))) f"
  by (simp add: listenerDetail_def andThen_asMap split: json.split)

lemma listenerStep_decode:
  "listenerStep idx m l =
     (case decodeListener l of
        None \<Rightarrow> Panics
      | Some (name, names) \<Rightarrow>
          Returns (m\<lparr>lds := (lds m)(name \<mapsto> ''LDS'' @ Itoa idx),
                      ldsToRds := (ldsToRds m)(name \<mapsto> fold Add (concat names) [])\<rparr>))"
proof (cases "field ''listener'' (field ''activeState'' l)")
  case (JObject detail)
  then show ?thesis
    by (simp add: listenerStep_def listenerDetail_field decodeListener_def asString_str asSlice_arr
        scanFilterChains_decode NewWithStringComparator_def split: option.splits)
qed (simp_all add: listenerStep_def listenerDetail_field decodeListener_def)

lemma weightedClusterName_decode: "weightedClusterName c = ofOption (str (field ''name'' c))"
  by (simp add: weightedClusterName_def asMap_field_string)

lemma scanWeightedClusters_decode:
  "scanWeightedClusters s cs =
     (case those (map (\<lambda>c. str (field ''name'' c)) cs) of
        None \<Rightarrow> Panics
      | Some ns \<Rightarrow> Returns (fold Add ns s))"
  by (induction cs arbitrary: s) (auto simp: weightedClusterName_decode split: option.splits)

lemma routeStep_decode:
  "routeStep s r =
     (case decodeAction r of
        None \<Rightarrow> Panics
      | Some a \<Rightarrow> Returns (fold Add (actionClusters a) s))"
  by (auto simp: routeStep_def decodeAction_def andThen_asMap asString_str asSlice_arr
        scanWeightedClusters_decode
      split: json.split option.split)

lemma scanRoutes_decode:
  "scanRoutes s rs =
     (case those (map decodeAction rs) of
        None \<Rightarrow> Panics
      | Some as \<Rightarrow> Returns (fold Add (concat (map actionClusters as)) s))"
  by (induction rs arbitrary: s) (auto simp: routeStep_decode split: option.splits)

lemma virtualHostRoutes_decode: "virtualHostRoutes vh = ofOption (arr (field ''routes'' vh))"
  by (simp add: virtualHostRoutes_def asMap_field_slice)

lemma scanVirtualHosts_decode:
  "scanVirtualHosts s vhs =
     (case those (map decodeVirtualHost vhs) of
        None \<Rightarrow> Panics
      | Some hosts \<Rightarrow> Returns (fold Add (concat (map actionClusters (concat hosts))) s))"
  by (induction vhs arbitrary: s)
     (auto simp: virtualHostRoutes_decode scanRoutes_decode decodeVirtualHost_def
           split: option.splits)

lemma routeConfigStep_decode:
  "routeConfigStep idx m rt =
     (case decodeRouteTable rt of
        None \<Rightarrow> Panics
      | Some (name, hosts) \<Rightarrow>
          Returns (m\<lparr>rds := (rds m)(name \<mapsto> ''RDS'' @ Itoa idx),
                      rdsToCds := (rdsToCds m)
                        (name \<mapsto> fold Add (concat (map actionClusters (concat hosts))) [])\<rparr>))"
proof (cases "field ''routeConfig'' rt")
  case (JObject routeConfig)
  then show ?thesis
    by (simp add: routeConfigStep_def asMap_field_map decodeRouteTable_def asString_str
        asSlice_arr scanVirtualHosts_decode NewWithStringComparator_def split: option.splits)
qed (simp_all add: routeConfigStep_def asMap_field_map decodeRouteTable_def)

lemma clusterStep_decode:
  "clusterStep idx m c =
     (case decodeCluster c of
        None \<Rightarrow> Panics
      | Some name \<Rightarrow> Returns (m\<lparr>cds := (cds m)(name \<mapsto> ''CDS'' @ Itoa idx)\<rparr>))"
proof (cases "field ''cluster'' c")
  case (JObject detail)
  then show ?thesis
    by (simp add: clusterStep_def asMap_field_map decodeCluster_def asString_str
        split: option.splits)
qed (simp_all add: clusterStep_def asMap_field_map decodeCluster_def)

subsection \<open>Which snapshots make the extraction panic\<close>

lemma scanArray_Panics:
  assumes "\<And>idx m x. step idx m x = Panics \<longleftrightarrow> \<not> ok x"
  shows "scanArray step idx m xs = Panics \<longleftrightarrow> \<not> list_all ok xs"
proof (induction xs arbitrary: idx m)
  case Nil
  then show ?case by simp
next
  case (Cons x xs)
  show ?case
  proof (cases "step idx m x")
    case (Returns m')
    with assms[of idx m x] have "ok x" by auto
    with Returns Cons show ?thesis by simp
  next
    case Panics
    with assms[of idx m x] show ?thesis by simp
  qed
qed

lemma rangeValues_Panics:
  assumes "\<And>idx m x. step idx m x = Panics \<longleftrightarrow> \<not> ok x"
  shows "rangeValues step m entries = Panics \<longleftrightarrow> \<not> wellFormedValues ok (JObject entries)"
proof (induction entries arbitrary: m)
  case Nil
  then show ?case by (simp add: wellFormedValues_def)
next
  case (Cons e entries)
  obtain k v where e: "e = (k, v)" by (cases e)
  show ?case
  proof (cases v)
    case (JArray xs)
    show ?thesis
    proof (cases "scanArray step 0 m xs")
      case (Returns m')
      with scanArray_Panics[of step ok 0 m xs, OF assms] have "list_all ok xs" by auto
      with Returns JArray e Cons[of m'] show ?thesis
        by (simp add: wellFormedValues_def)
    next
      case Panics
      with scanArray_Panics[of step ok 0 m xs, OF assms] have "\<not> list_all ok xs" by auto
      with Panics JArray e show ?thesis by (simp add: wellFormedValues_def)
    qed
  qed (simp_all add: e wellFormedValues_def)
qed

lemma categoryStep_decodes:
  "(categoryStep key = None \<longleftrightarrow> categoryDecodes key = None) \<and>
   (\<forall>step ok. categoryStep key = Some step \<longrightarrow> categoryDecodes key = Some ok \<longrightarrow>
      (\<forall>idx m x. step idx m x = Panics \<longleftrightarrow> \<not> ok x))"
  by (auto simp: categoryStep_def categoryDecodes_def listenerStep_decode routeConfigStep_decode
        clusterStep_decode split: option.splits)

lemma rangeXds_Panics:
  "rangeXds m entries = Panics \<longleftrightarrow> \<not> list_all wellFormedEntry entries"
proof (induction entries arbitrary: m)
  case Nil
  then show ?case by simp
next
  case (Cons e entries)
  obtain key v where e: "e = (key, v)" by (cases e)
  show ?case
  proof (cases "key = ''status''")
    case True
    with e Cons show ?thesis by (simp add: wellFormedEntry_def)
  next
    case notStatus: False
    show ?thesis
    proof (cases "categoryStep key")
      case None
      then have "categoryDecodes key = None" using categoryStep_decodes[of key] by simp
      with None notStatus e Cons show ?thesis by (simp add: wellFormedEntry_def)
    next
      case (Some step)
      then obtain ok where ok: "categoryDecodes key = Some ok"
        using categoryStep_decodes[of key] by (cases "categoryDecodes key") auto
      have st: "\<And>idx m x. step idx m x = Panics \<longleftrightarrow> \<not> ok x"
        using categoryStep_decodes[of key] Some ok by blast
      show ?thesis
      proof (cases v)
        case (JObject vs)
        show ?thesis
        proof (cases "rangeValues step m vs")
          case (Returns m')
          with rangeValues_Panics[of step ok m vs, OF st]
          have "wellFormedValues ok (JObject vs)" by auto
          with Returns JObject Some ok notStatus e Cons[of m'] show ?thesis
            by (simp add: wellFormedEntry_def)
        next
          case Panics
          with rangeValues_Panics[of step ok m vs, OF st]
          have "\<not> wellFormedValues ok (JObject vs)" by auto
          with Panics JObject Some ok notStatus e show ?thesis
            by (simp add: wellFormedEntry_def)
        qed
      qed (simp_all add: e notStatus Some ok wellFormedEntry_def wellFormedValues_def)
    qed
  qed
qed

lemma scanXdsConfig_Panics:
  "scanXdsConfig m xs = Panics \<longleftrightarrow> \<not> list_all wellFormedXds xs"
proof (induction xs arbitrary: m)
  case Nil
  then show ?case by simp
next
  case (Cons x xs)
  show ?case
  proof (cases x)
    case (JObject entries)
    show ?thesis
    proof (cases "rangeXds m entries")
      case (Returns m')
      with rangeXds_Panics[of m entries] have "list_all wellFormedEntry entries" by auto
      with Returns JObject Cons[of m'] show ?thesis by (simp add: wellFormedXds_def)
    next
      case Panics
      with rangeXds_Panics[of m entries] have "\<not> list_all wellFormedEntry entries" by auto
      with Panics JObject show ?thesis by (simp add: wellFormedXds_def)
    qed
  qed (simp_all add: wellFormedXds_def)
qed

lemma configXds_decode: "configXds config = ofOption (arr (field ''xdsConfig'' config))"
  by (simp add: configXds_def asMap_field_slice)

lemma scanConfig_Panics:
  "scanConfig m cs = Panics \<longleftrightarrow> \<not> list_all wellFormedClient cs"
proof (induction cs arbitrary: m)
  case Nil
  then show ?case by simp
next
  case (Cons c cs)
  show ?case
  proof (cases "arr (field ''xdsConfig'' c)")
    case None
    then show ?thesis by (simp add: configXds_decode wellFormedClient_def)
  next
    case (Some xs)
    show ?thesis
    proof (cases "scanXdsConfig m xs")
      case (Returns m')
      with scanXdsConfig_Panics[of m xs] have "list_all wellFormedXds xs" by auto
      with Returns Some Cons[of m'] show ?thesis
        by (simp add: configXds_decode wellFormedClient_def)
    next
      case Panics
      with scanXdsConfig_Panics[of m xs] have "\<not> list_all wellFormedXds xs" by auto
      with Panics Some show ?thesis by (simp add: configXds_decode wellFormedClient_def)
    qed
  qed
qed

lemma parse_decoded:
  assumes "Unmarshal js = Inr data"
  shows "parseXdsRelationship Unmarshal js = Panics \<longleftrightarrow> \<not> wellFormed data"
proof (cases "arr (index data ''config'')")
  case None
  with assms show ?thesis by (simp add: parseXdsRelationship_def asSlice_arr wellFormed_def)
next
  case (Some cs)
  show ?thesis
  proof (cases "scanConfig make_maps cs")
    case (Returns m')
    with scanConfig_Panics[of make_maps cs] have "list_all wellFormedClient cs" by auto
    with Returns Some assms show ?thesis
      by (simp add: parseXdsRelationship_def asSlice_arr wellFormed_def)
  next
    case Panics
    with scanConfig_Panics[of make_maps cs] have "\<not> list_all wellFormedClient cs" by auto
    with Panics Some assms show ?thesis
      by (simp add: parseXdsRelationship_def asSlice_arr wellFormed_def)
  qed
qed

subsection \<open>Invariants of the scan\<close>

lemma preservesD: "preserves P step \<Longrightarrow> P m \<Longrightarrow> step idx m x = Returns m' \<Longrightarrow> P m'"
  unfolding preserves_def by blast

lemma scanArray_invariant:
  "preserves P step \<Longrightarrow> P m \<Longrightarrow> scanArray step idx m xs = Returns m' \<Longrightarrow> P m'"
proof (induction xs arbitrary: idx m)
  case Nil
  then show ?case by simp
next
  case (Cons x xs)
  from Cons.prems(3) obtain m1 where
    m1: "step idx m x = Returns m1" "scanArray step (Suc idx) m1 xs = Returns m'"
    by (auto simp: andThen_eq_Returns)
  from preservesD[OF Cons.prems(1,2) m1(1)] have "P m1" .
  with Cons.IH[OF Cons.prems(1) _ m1(2)] show ?case .
qed

lemma rangeValues_invariant:
  "preserves P step \<Longrightarrow> P m \<Longrightarrow> rangeValues step m entries = Returns m' \<Longrightarrow> P m'"
proof (induction entries arbitrary: m)
  case Nil
  then show ?case by simp
next
  case (Cons e entries)
  obtain k v where e: "e = (k, v)" by (cases e)
  from Cons.prems(3) e obtain xs m1 where
    m1: "scanArray step 0 m xs = Returns m1" "rangeValues step m1 entries = Returns m'"
    by (auto simp: andThen_eq_Returns)
  from scanArray_invariant[OF Cons.prems(1,2) m1(1)] have "P m1" .
  with Cons.IH[OF Cons.prems(1) _ m1(2)] show ?case .
qed

lemma categoryStep_cases:
  "categoryStep key = Some step \<Longrightarrow>
     step = listenerStep \<or> step = routeConfigStep \<or> step = clusterStep"
  by (auto simp: categoryStep_def split: if_splits)

lemma rangeXds_invariant:
  assumes "preserves P listenerStep" "preserves P routeConfigStep" "preserves P clusterStep"
  shows "P m \<Longrightarrow> rangeXds m entries = Returns m' \<Longrightarrow> P m'"
proof (induction entries arbitrary: m)
  case Nil
  then show ?case by simp
next
  case (Cons e entries)
  obtain key v where e: "e = (key, v)" by (cases e)
  show ?case
  proof (cases "key = ''status'' \<or> categoryStep key = None")
    case True
    with Cons.prems(2) e have "rangeXds m entries = Returns m'" by (auto split: if_splits)
    with Cons.IH[OF Cons.prems(1)] show ?thesis .
  next
    case False
    then obtain step where step: "categoryStep key = Some step" and ns: "key \<noteq> ''status''"
      by auto
    have pres: "preserves P step"
      using categoryStep_cases[OF step] assms by auto
    from Cons.prems(2) e step ns obtain vs m1 where
      m1: "rangeValues step m vs = Returns m1" "rangeXds m1 entries = Returns m'"
      by (auto simp: andThen_eq_Returns)
    from rangeValues_invariant[OF pres Cons.prems(1) m1(1)] have "P m1" .
    with Cons.IH[OF _ m1(2)] show ?thesis .
  qed
qed

lemma scanXdsConfig_invariant:
  assumes "preserves P listenerStep" "preserves P routeConfigStep" "preserves P clusterStep"
  shows "P m \<Longrightarrow> scanXdsConfig m xs = Returns m' \<Longrightarrow> P m'"
proof (induction xs arbitrary: m)
  case Nil
  then show ?case by simp
next
  case (Cons x xs)
  from Cons.prems(2) obtain entries m1 where
    m1: "rangeXds m entries = Returns m1" "scanXdsConfig m1 xs = Returns m'"
    by (auto simp: andThen_eq_Returns)
  from rangeXds_invariant[OF assms Cons.prems(1) m1(1)] have "P m1" .
  with Cons.IH[OF _ m1(2)] show ?case .
qed

lemma scanConfig_invariant:
  assumes "preserves P listenerStep" "preserves P routeConfigStep" "preserves P clusterStep"
  shows "P m \<Longrightarrow> scanConfig m cs = Returns m' \<Longrightarrow> P m'"
proof (induction cs arbitrary: m)
  case Nil
  then show ?case by simp
next
  case (Cons c cs)
  from Cons.prems(2) obtain xs m1 where
    m1: "scanXdsConfig m xs = Returns m1" "scanConfig m1 cs = Returns m'"
    by (auto simp: andThen_eq_Returns)
  from scanXdsConfig_invariant[OF assms Cons.prems(1) m1(1)] have "P m1" .
  with Cons.IH[OF _ m1(2)] show ?case .
qed

lemma parseXdsRelationship_invariant:
  assumes "preserves P listenerStep" "preserves P routeConfigStep" "preserves P clusterStep"
      and init: "P make_maps"
      and ret: "parseXdsRelationship Unmarshal js = Returns (g, None)"
  shows "\<exists>m. g = packGraph m \<and> P m"
proof -
  from ret obtain cs m where
    m: "scanConfig make_maps cs = Returns m" "g = packGraph m"
    by (auto simp: parseXdsRelationship_def andThen_eq_Returns split: sum.splits)
  from scanConfig_invariant[OF assms(1-3) init m(1)] m(2) show ?thesis by auto
qed

lemma shortIds_empty [simp]: "shortIds tag Map.empty"
  by (simp add: shortIds_def)

lemma shortIds_upd:
  "shortIds tag f \<Longrightarrow> \<exists>k. v = tag @ Itoa k \<Longrightarrow> shortIds tag (f(name \<mapsto> v))"
  by (auto simp: shortIds_def)

lemma strictSets_empty [simp]: "strictSets Map.empty"
  by (simp add: strictSets_def)

lemma strictSets_upd: "strictSets f \<Longrightarrow> sorted_wrt (<) s \<Longrightarrow> strictSets (f(name \<mapsto> s))"
  by (auto simp: strictSets_def Values_def)

lemma graphInvariant_listenerStep: "preserves graphInvariant listenerStep"
  unfolding preserves_def
  by (auto simp: listenerStep_decode graphInvariant_def strictSets_upd
        strict_sorted_fold_Add split: option.splits intro!: shortIds_upd)

lemma graphInvariant_routeConfigStep: "preserves graphInvariant routeConfigStep"
  unfolding preserves_def
  by (auto simp: routeConfigStep_decode graphInvariant_def strictSets_upd
        strict_sorted_fold_Add split: option.splits intro!: shortIds_upd)

lemma graphInvariant_clusterStep: "preserves graphInvariant clusterStep"
  unfolding preserves_def
  by (auto simp: clusterStep_decode graphInvariant_def split: option.splits intro!: shortIds_upd)

lemma graphInvariant_make_maps: "graphInvariant make_maps"
  by (simp add: graphInvariant_def make_maps_def)

lemma parseXdsRelationship_graphInvariant:
  "parseXdsRelationship Unmarshal js = Returns (g, None) \<Longrightarrow> \<exists>m. g = packGraph m \<and> graphInvariant m"
  by (rule parseXdsRelationship_invariant
        [OF graphInvariant_listenerStep graphInvariant_routeConfigStep
            graphInvariant_clusterStep graphInvariant_make_maps])

lemma Itoa_digits: "Itoa k \<noteq> [] \<and> set (Itoa k) \<subseteq> set ''0123456789''"
proof (induction k rule: Itoa.induct)
  case (1 n)
  have d: "\<And>i. i < 10 \<Longrightarrow> ''0123456789'' ! i \<in> set ''0123456789''"
    by (rule nth_mem) simp
  show ?case
  proof (cases "n < 10")
    case True
    with d[of n] show ?thesis by (simp add: Itoa.simps[of n])
  next
    case False
    with 1 d[of "n mod 10"] show ?thesis by (simp add: Itoa.simps[of n])
  qed
qed

section \<open>Failure of the extraction\<close>

lemmas extract_defs =
  parseXdsRelationship_def configXds_def categoryStep_def listenerStep_def listenerDetail_def
  filterchainFilters_def filterRdsName_def routeConfigStep_def virtualHostRoutes_def
  routeStep_def weightedClusterName_def clusterStep_def packGraph_def make_maps_def Add_def
  NewWithStringComparator_def Itoa.simps decodedAs_def

lemmas wellFormed_defs =
  wellFormed_def wellFormedClient_def wellFormedXds_def wellFormedEntry_def
  wellFormedValues_def categoryDecodes_def decodeListener_def decodeFilterChain_def
  decodeFilter_def decodeRouteTable_def decodeVirtualHost_def decodeAction_def
  decodeCluster_def

text \<open>
  C3, as the code has it. The only error that \<^verbatim>\<open>parseXdsRelationship\<close> returns is the
  error of the decoder, and it comes with the empty \<^verbatim>\<open>GraphData\<close>. Once the document is
  decoded, a snapshot in which a field that the extraction reads is missing or has the
  wrong shape makes the extraction panic: no error value and no graph, partial or whole,
  is returned. A well-formed snapshot returns a graph and no error.
\<close>

theorem parseXdsRelationship_outcomes:
  "(case Unmarshal js of
      Inl err \<Rightarrow> parseXdsRelationship Unmarshal js = Returns (GraphData_zero, Some err)
    | Inr data \<Rightarrow>
        if wellFormed data then \<exists>g. parseXdsRelationship Unmarshal js = Returns (g, None)
        else parseXdsRelationship Unmarshal js = Panics)"
proof (cases "Unmarshal js")
  case (Inl err)
  then show ?thesis by (simp add: parseXdsRelationship_def)
next
  case (Inr data)
  show ?thesis
  proof (cases "wellFormed data")
    case True
    with parse_decoded[of Unmarshal js data, OF Inr]
    have np: "parseXdsRelationship Unmarshal js \<noteq> Panics" by simp
    then obtain r where r: "parseXdsRelationship Unmarshal js = Returns r"
      by (cases "parseXdsRelationship Unmarshal js") auto
    then have "snd r = None"
      using Inr by (auto simp: parseXdsRelationship_def andThen_eq_Returns)
    with r have "parseXdsRelationship Unmarshal js = Returns (fst r, None)"
      by (cases r) simp
    with Inr True show ?thesis by auto
  next
    case False
    with parse_decoded[of Unmarshal js data, OF Inr] Inr show ?thesis by simp
  qed
qed

theorem parseXdsRelationship_outcomes_witness:
  "\<not> wellFormed snapshotWithoutName \<and>
   parseXdsRelationship (decodedAs (Inr snapshotWithoutName)) ''doc'' = Panics \<and>
   wellFormed exampleSnapshot \<and>
   parseXdsRelationship (decodedAs (Inr exampleSnapshot)) ''doc'' = Returns (exampleGraph, None) \<and>
   parseXdsRelationship (decodedAs (Inl ''unexpected end of JSON input'')) ''doc'' =
     Returns (GraphData_zero, Some ''unexpected end of JSON input'')"
proof -
  have bad: "\<not> wellFormed snapshotWithoutName"
    by (simp add: wellFormed_defs snapshotWithoutName_def)
  have good: "wellFormed exampleSnapshot"
    by (simp add: wellFormed_defs exampleSnapshot_def hcmFilter_def)
  have ex: "parseXdsRelationship (decodedAs (Inr exampleSnapshot)) ''doc''
              = Returns (exampleGraph, None)"
    by (simp add: extract_defs exampleSnapshot_def exampleGraph_def hcmFilter_def)
  show ?thesis
    using bad good ex
      parseXdsRelationship_outcomes [of "decodedAs (Inr snapshotWithoutName)" "''doc''"]
      parseXdsRelationship_outcomes
        [of "decodedAs (Inl ''unexpected end of JSON input'')" "''doc''"]
    by (simp add: decodedAs_def)
qed

text \<open>
  The claim read literally, on the document
  \<^verbatim>\<open>{"config":[{"xdsConfig":[{"status":"SYNCED","listenerConfig":{"dynamicListeners":
  [{"activeState":{"listener":{"filterChains":[]}}}]}}]}]}\<close>, whose listener has no
  name: line 241 asserts \<^verbatim>\<open>detail["name"].(string)\<close> on \<^verbatim>\<open>nil\<close>, and the call panics
  where the claim has it return an error.
\<close>

theorem parseXdsRelationship_missing_name_panics:
  "parseXdsRelationship (decodedAs (Inr snapshotWithoutName)) ''doc'' = Panics"
  by (simp add: extract_defs snapshotWithoutName_def)

section \<open>Short ids and colours\<close>

lemmas doc_defs = listenerJson_def listenersEntry_def clientJson_def hcmFilter_def tcpFilter_def

lemma decimal_Itoa: "decimal (Itoa k)"
  unfolding decimal_def list_all_iff using Itoa_digits[of k] by blast

lemma nodeCall_styled: "nodeCall name v = styledNode name v (colors (take 3 v))"
  by (simp add: nodeCall_def styledNode_def)

lemma example_extracted:
  "parseXdsRelationship (decodedAs (Inr exampleSnapshot)) ''doc'' = Returns (exampleGraph, None)"
  by (simp add: extract_defs exampleSnapshot_def exampleGraph_def hcmFilter_def)

section \<open>How the short ids are numbered\<close>

lemma assignIds_other: "n \<notin> set ns \<Longrightarrow> assignIds tag k ns f n = f n"
  by (induction ns arbitrary: k f) auto

lemma assignIds_nth:
  "i < length ns \<Longrightarrow> ns ! i \<notin> set (drop (Suc i) ns) \<Longrightarrow>
     assignIds tag k ns f (ns ! i) = Some (tag @ Itoa (k + i))"
proof (induction ns arbitrary: k f i)
  case Nil
  then show ?case by simp
next
  case (Cons n ns)
  show ?case
  proof (cases i)
    case 0
    with Cons.prems show ?thesis by (simp add: assignIds_other)
  next
    case (Suc j)
    with Cons.prems show ?thesis by (simp add: Cons.IH)
  qed
qed

lemma scanArray_listenerStep_ids:
  "those (map decodeListener xs) = Some ds \<Longrightarrow>
     \<exists>m'. scanArray listenerStep k m xs = Returns m' \<and>
          lds m' = assignIds ''LDS'' k (map fst ds) (lds m)"
proof (induction xs arbitrary: k m ds)
  case Nil
  then show ?case by simp
next
  case (Cons x xs)
  from Cons.prems obtain d ds' where
    d: "decodeListener x = Some d" "those (map decodeListener xs) = Some ds'" "ds = d # ds'"
    by (auto split: option.splits)
  obtain name names where dn: "d = (name, names)" by (cases d)
  let ?m1 = "m\<lparr>lds := (lds m)(name \<mapsto> ''LDS'' @ Itoa k),
               ldsToRds := (ldsToRds m)(name \<mapsto> fold Add (concat names) [])\<rparr>"
  have step: "listenerStep k m x = Returns ?m1"
    using d dn by (simp add: listenerStep_decode)
  from Cons.IH[OF d(2), of "Suc k" ?m1] obtain m' where
    m': "scanArray listenerStep (Suc k) ?m1 xs = Returns m'"
        "lds m' = assignIds ''LDS'' (Suc k) (map fst ds') (lds ?m1)"
    by blast
  have upd: "lds ?m1 = (lds m)(name \<mapsto> ''LDS'' @ Itoa k)" by simp
  have "scanArray listenerStep k m (x # xs) = Returns m'"
    by (simp only: scanArray.simps step andThen_Returns m'(1))
  moreover have "lds m' = assignIds ''LDS'' k (map fst ds) (lds m)"
    using m'(2) d dn by (simp only: upd assignIds.simps list.map fst_conv)
  ultimately show ?case by blast
qed

lemma scanArray_routeConfigStep_ids:
  "those (map decodeRouteTable xs) = Some ds \<Longrightarrow>
     \<exists>m'. scanArray routeConfigStep k m xs = Returns m' \<and>
          rds m' = assignIds ''RDS'' k (map fst ds) (rds m)"
proof (induction xs arbitrary: k m ds)
  case Nil
  then show ?case by simp
next
  case (Cons x xs)
  from Cons.prems obtain d ds' where
    d: "decodeRouteTable x = Some d" "those (map decodeRouteTable xs) = Some ds'" "ds = d # ds'"
    by (auto split: option.splits)
  obtain name hosts where dn: "d = (name, hosts)" by (cases d)
  let ?m1 = "m\<lparr>rds := (rds m)(name \<mapsto> ''RDS'' @ Itoa k),
               rdsToCds := (rdsToCds m)
                 (name \<mapsto> fold Add (concat (map actionClusters (concat hosts))) [])\<rparr>"
  have step: "routeConfigStep k m x = Returns ?m1"
    using d dn by (simp add: routeConfigStep_decode)
  from Cons.IH[OF d(2), of "Suc k" ?m1] obtain m' where
    m': "scanArray routeConfigStep (Suc k) ?m1 xs = Returns m'"
        "rds m' = assignIds ''RDS'' (Suc k) (map fst ds') (rds ?m1)"
    by blast
  have upd: "rds ?m1 = (rds m)(name \<mapsto> ''RDS'' @ Itoa k)" by simp
  have "scanArray routeConfigStep k m (x # xs) = Returns m'"
    by (simp only: scanArray.simps step andThen_Returns m'(1))
  moreover have "rds m' = assignIds ''RDS'' k (map fst ds) (rds m)"
    using m'(2) d dn by (simp only: upd assignIds.simps list.map fst_conv)
  ultimately show ?case by blast
qed

lemma scanArray_clusterStep_ids:
  "those (map decodeCluster xs) = Some ds \<Longrightarrow>
     \<exists>m'. scanArray clusterStep k m xs = Returns m' \<and>
          cds m' = assignIds ''CDS'' k ds (cds m)"
proof (induction xs arbitrary: k m ds)
  case Nil
  then show ?case by simp
next
  case (Cons x xs)
  from Cons.prems obtain d ds' where
    d: "decodeCluster x = Some d" "those (map decodeCluster xs) = Some ds'" "ds = d # ds'"
    by (auto split: option.splits)
  let ?m1 = "m\<lparr>cds := (cds m)(d \<mapsto> ''CDS'' @ Itoa k)\<rparr>"
  have step: "clusterStep k m x = Returns ?m1"
    using d refl by (simp add: clusterStep_decode)
  from Cons.IH[OF d(2), of "Suc k" ?m1] obtain m' where
    m': "scanArray clusterStep (Suc k) ?m1 xs = Returns m'"
        "cds m' = assignIds ''CDS'' (Suc k) ds' (cds ?m1)"
    by blast
  have upd: "cds ?m1 = (cds m)(d \<mapsto> ''CDS'' @ Itoa k)" by simp
  have "scanArray clusterStep k m (x # xs) = Returns m'"
    by (simp only: scanArray.simps step andThen_Returns m'(1))
  moreover have "cds m' = assignIds ''CDS'' k ds (cds m)"
    using m'(2) d refl by (simp only: upd assignIds.simps list.map fst_conv)
  ultimately show ?case by blast
qed


lemmas decode_defs =
  decodeListener_def decodeFilterChain_def decodeFilter_def decodeRouteTable_def
  decodeVirtualHost_def decodeAction_def decodeCluster_def



section \<open>References of route tables and of listeners\<close>

lemma distinct_fold_Add: "sorted_wrt (<) s \<Longrightarrow> distinct (fold Add xs s)"
  using strict_sorted_fold_Add[of s xs] by (simp add: strict_sorted_iff)

text \<open>
  C2, as the code has it. Every filter of every filter chain has to carry a route-table
  name under \<^verbatim>\<open>typedConfig.rds.routeConfigName\<close>, and contributes it whatever the type of
  its payload; a listener whose filter chains hold no filter at all (an empty array of
  chains, or chains with empty arrays of filters) is registered with an empty set. A
  listener without the array of filter chains, or a filter without the route reference,
  is not skipped: the listener does not decode and the extraction panics.
\<close>

theorem listener_edges_and_registration:
  "(decodeListener l = None \<longrightarrow> listenerStep idx m l = Panics) \<and>
   (\<forall>name names. decodeListener l = Some (name, names) \<longrightarrow>
      (\<exists>m' s. listenerStep idx m l = Returns m' \<and>
         lds m' name = Some (''LDS'' @ Itoa idx) \<and>
         ldsToRds m' name = Some s \<and> set (Values s) = set (concat names)))"
proof (intro conjI allI impI)
  assume "decodeListener l = None"
  then show "listenerStep idx m l = Panics" by (simp add: listenerStep_decode)
next
  fix name names assume d: "decodeListener l = Some (name, names)"
  let ?s = "fold Add (concat names) []"
  let ?m = "m\<lparr>lds := (lds m)(name \<mapsto> ''LDS'' @ Itoa idx),
              ldsToRds := (ldsToRds m)(name \<mapsto> ?s)\<rparr>"
  have step: "listenerStep idx m l = Returns ?m"
    using d by (simp add: listenerStep_decode)
  have l1: "lds ?m name = Some (''LDS'' @ Itoa idx)" by simp
  have l2: "ldsToRds ?m name = Some ?s" by simp
  have st: "set (Values ?s) = set (concat names)" by (simp add: Values_def)
  from step l1 l2 st
  show "\<exists>m' s. listenerStep idx m l = Returns m' \<and>
         lds m' name = Some (''LDS'' @ Itoa idx) \<and>
         ldsToRds m' name = Some s \<and> set (Values s) = set (concat names)"
    by blast
qed

theorem listener_edges_and_registration_witness:
  "decodeListener (listenerJson ''L1'' []) = Some (''L1'', []) \<and>
   (case listenerStep 0 make_maps (listenerJson ''L1'' []) of
      Returns m' \<Rightarrow> (lds m' ''L1'', map_option (\<lambda>s. set (Values s)) (ldsToRds m' ''L1''))
    | Panics \<Rightarrow> (None, None)) = (Some ''LDS0'', Some {}) \<and>
   decodeListener (listenerJson ''L1'' [JObject [(''filters'', JArray [tcpFilter])]]) = None \<and>
   listenerStep 0 make_maps (listenerJson ''L1'' [JObject [(''filters'', JArray [tcpFilter])]])
     = Panics"
proof -
  let ?t = "listenerJson ''L1'' [JObject [(''filters'', JArray [tcpFilter])]]"
  have d1: "decodeListener (listenerJson ''L1'' []) = Some (''L1'', [])"
    by (simp add: decode_defs listenerJson_def)
  have d2: "decodeListener ?t = None"
    by (simp add: decode_defs listenerJson_def tcpFilter_def)
  from listener_edges_and_registration
         [of "listenerJson ''L1'' []" 0 make_maps, THEN conjunct2, rule_format, OF d1]
  obtain m1 s1 where m1: "listenerStep 0 make_maps (listenerJson ''L1'' []) = Returns m1"
      "lds m1 ''L1'' = Some (''LDS'' @ Itoa 0)"
      "ldsToRds m1 ''L1'' = Some s1" "set (Values s1) = set (concat ([] :: string list list))"
    by (elim exE conjE) (rule that, assumption+)
  from m1(2) have i: "lds m1 ''L1'' = Some ''LDS0''" by (simp add: Itoa.simps)
  from m1(4) have e: "set (Values s1) = {}" by simp
  from m1(1,3) i e have r1: "(case listenerStep 0 make_maps (listenerJson ''L1'' []) of
      Returns m' \<Rightarrow> (lds m' ''L1'', map_option (\<lambda>s. set (Values s)) (ldsToRds m' ''L1''))
    | Panics \<Rightarrow> (None, None)) = (Some ''LDS0'', Some {})" by simp
  from listener_edges_and_registration [of ?t 0 make_maps, THEN conjunct1, rule_format, OF d2]
  have r2: "listenerStep 0 make_maps ?t = Panics" .
  from d1 r1 d2 r2 show ?thesis by (intro conjI) assumption+
qed

text \<open>
  The claim read literally: listener \<open>L1\<close> with one filter chain whose one filter is a
  TCP proxy (its payload has no \<^verbatim>\<open>rds\<close>), and a listener with no \<^verbatim>\<open>filterChains\<close>
  at all. Line 248, respectively line 246, asserts a type on \<^verbatim>\<open>nil\<close>; the claim has
  the filter skipped and the listener registered.
\<close>

theorem filter_without_route_reference_panics:
  "parseXdsRelationship (decodedAs (Inr tcpSnapshot)) ''doc'' = Panics \<and>
   listenerStep 0 make_maps listenerWithoutChains = Panics"
  by (simp add: extract_defs tcpSnapshot_def listenerWithoutChains_def doc_defs)

section \<open>The declarations of the renderer\<close>

lemma issue_accepted: "\<forall>g c. addErr lib g c = None \<Longrightarrow> issue lib graph c = Inr (graph @ [c])"
  by (simp add: issue_def)

lemma addNodes_accepted:
  assumes "\<forall>g c. addErr lib g c = None"
  shows "\<forall>(name, node)\<in>set entries. 3 \<le> length node \<Longrightarrow>
     addNodes lib graph entries
       = Returns (Inr (graph @ map (\<lambda>(name, node). nodeCall name node) entries))"
proof (induction entries arbitrary: graph)
  case Nil
  then show ?case by simp
next
  case (Cons e entries)
  obtain name node where e: "e = (name, node)" by (cases e)
  from Cons.prems e have len: "\<not> length node < 3"
    and rest: "\<forall>(name, node)\<in>set entries. 3 \<le> length node" by auto
  show ?case
    by (simp add: e len issue_accepted[OF assms] Cons.IH[OF rest])
qed

lemma addNodeMaps_accepted:
  assumes "\<forall>g c. addErr lib g c = None"
  shows "\<forall>m\<in>set ms. \<forall>(name, node)\<in>set (rangeNodes m). 3 \<le> length node \<Longrightarrow>
     addNodeMaps lib rangeNodes graph ms
       = Returns (Inr (graph @ concat (map (\<lambda>xDS. map (\<lambda>(name, node). nodeCall name node)
                                                (rangeNodes xDS)) ms)))"
proof (induction ms arbitrary: graph)
  case Nil
  then show ?case by simp
next
  case (Cons m ms)
  from Cons.prems have here: "\<forall>(name, node)\<in>set (rangeNodes m). 3 \<le> length node"
    and rest: "\<forall>m\<in>set ms. \<forall>(name, node)\<in>set (rangeNodes m). 3 \<le> length node" by auto
  show ?case
    by (simp add: addNodes_accepted[OF assms here] Cons.IH[OF rest])
qed

lemma addEdges_accepted:
  assumes "\<forall>g c. addErr lib g c = None"
  shows "addEdges lib graph src dsts = Inr (graph @ map (edgeCall src) dsts)"
  by (induction dsts arbitrary: graph) (simp_all add: issue_accepted[OF assms])

lemma addRelation_accepted:
  assumes "\<forall>g c. addErr lib g c = None"
  shows "addRelation lib graph entries
       = Inr (graph @ concat (map (\<lambda>(src, s). map (edgeCall src) (Values s)) entries))"
proof (induction entries arbitrary: graph)
  case Nil
  then show ?case by simp
next
  case (Cons e entries)
  obtain src s where e: "e = (src, s)" by (cases e)
  show ?case by (simp add: e addEdges_accepted[OF assms] Cons.IH)
qed

lemma addRelationMaps_accepted:
  assumes "\<forall>g c. addErr lib g c = None"
  shows "addRelationMaps lib rangeRelations graph rs
       = Inr (graph @ concat (map (\<lambda>r. concat (map (\<lambda>(src, s). map (edgeCall src) (Values s))
                                                  (rangeRelations r))) rs))"
  by (induction rs arbitrary: graph) (simp_all add: addRelation_accepted[OF assms])

lemma generateGraph_accepted:
  assumes "parseStringErr lib = None" "analyseErr lib = None" "\<forall>g c. addErr lib g c = None"
      and "\<forall>m\<in>set (nodes data). \<forall>(name, node)\<in>set (rangeNodes m). 3 \<le> length node"
  shows "generateGraph lib rangeNodes rangeRelations data
       = Returns (graphString lib (graphCalls rangeNodes rangeRelations data), None)"
  by (simp add: generateGraph_def assms(1,2) issue_accepted[OF assms(3)]
        addNodeMaps_accepted[OF assms(3,4)] addRelationMaps_accepted[OF assms(3)]
        graphCalls_def nodeCalls_def edgeCalls_def)

lemma addNodeMaps_cong:
  "\<forall>m\<in>set ms. rangeNodes m = rangeNodes' m \<Longrightarrow>
     addNodeMaps lib rangeNodes graph ms = addNodeMaps lib rangeNodes' graph ms"
  by (induction ms arbitrary: graph) (simp_all split: outcome.splits sum.splits)

lemma addRelationMaps_cong:
  "\<forall>r\<in>set rs. rangeRelations r = rangeRelations' r \<Longrightarrow>
     addRelationMaps lib rangeRelations graph rs = addRelationMaps lib rangeRelations' graph rs"
  by (induction rs arbitrary: graph) (simp_all split: sum.splits)

lemma generateGraph_cong:
  assumes "\<forall>m\<in>set (nodes data). rangeNodes m = rangeNodes' m"
      and "\<forall>r\<in>set (relations data). rangeRelations r = rangeRelations' r"
  shows "generateGraph lib rangeNodes rangeRelations data
       = generateGraph lib rangeNodes' rangeRelations' data"
  by (simp add: generateGraph_def addNodeMaps_cong[OF assms(1)] addRelationMaps_cong[OF assms(2)]
      cong: option.case_cong sum.case_cong outcome.case_cong)

lemmas range_defs = rangeInOrder_def List.map_filter_simps

lemma run_addNodes:
  "run lib graph (map (\<lambda>(name, node). nodeDecl name node) entries @ rest) =
     (case addNodes lib graph entries of
        Panics \<Rightarrow> Panics
      | Returns (Inl err) \<Rightarrow> Returns ('''', Some err)
      | Returns (Inr graph') \<Rightarrow> run lib graph' rest)"
proof (induction entries arbitrary: graph)
  case Nil
  then show ?case by simp
next
  case (Cons e entries)
  obtain name node where e: "e = (name, node)" by (cases e)
  show ?case
  proof (cases "length node < 3")
    case True
    then show ?thesis by (simp add: e nodeDecl_def)
  next
    case False
    then have nd: "nodeDecl name node = Declare (nodeCall name node)"
      by (simp add: nodeDecl_def nodeCall_styled)
    from False show ?thesis
      by (simp add: e nd issue_def Cons.IH split: option.split)
  qed
qed

lemma run_addNodeMaps:
  "run lib graph
     (concat (map (\<lambda>xDS. map (\<lambda>(name, node). nodeDecl name node) (rangeNodes xDS)) ms) @ rest) =
     (case addNodeMaps lib rangeNodes graph ms of
        Panics \<Rightarrow> Panics
      | Returns (Inl err) \<Rightarrow> Returns ('''', Some err)
      | Returns (Inr graph') \<Rightarrow> run lib graph' rest)"
proof (induction ms arbitrary: graph)
  case Nil
  then show ?case by simp
next
  case (Cons m ms)
  show ?case
    by (simp add: run_addNodes Cons.IH split: outcome.split sum.split)
qed

lemma run_addEdges:
  "run lib graph (map (\<lambda>dst. Declare (edgeCall src dst)) dsts @ rest) =
     (case addEdges lib graph src dsts of
        Inl err \<Rightarrow> Returns ('''', Some err)
      | Inr graph' \<Rightarrow> run lib graph' rest)"
  by (induction dsts arbitrary: graph) (simp_all add: issue_def split: option.split)

lemma run_addRelation:
  "run lib graph
     (concat (map (\<lambda>(src, s). map (\<lambda>dst. Declare (edgeCall src dst)) (Values s)) entries) @ rest) =
     (case addRelation lib graph entries of
        Inl err \<Rightarrow> Returns ('''', Some err)
      | Inr graph' \<Rightarrow> run lib graph' rest)"
proof (induction entries arbitrary: graph)
  case Nil
  then show ?case by simp
next
  case (Cons e entries)
  obtain src s where e: "e = (src, s)" by (cases e)
  show ?case by (simp add: e run_addEdges Cons.IH split: sum.split)
qed

lemma run_addRelationMaps:
  "run lib graph
     (concat (map (\<lambda>r. concat (map (\<lambda>(src, s). map (\<lambda>dst. Declare (edgeCall src dst)) (Values s))
                                 (rangeRelations r))) rs) @ rest) =
     (case addRelationMaps lib rangeRelations graph rs of
        Inl err \<Rightarrow> Returns ('''', Some err)
      | Inr graph' \<Rightarrow> run lib graph' rest)"
proof (induction rs arbitrary: graph)
  case Nil
  then show ?case by simp
next
  case (Cons r rs)
  show ?case by (simp add: run_addRelation Cons.IH split: sum.split)
qed

lemma generateGraph_render:
  "generateGraph lib rangeNodes rangeRelations data
     = render lib (declarations rangeNodes rangeRelations data)"
proof -
  have e: "run lib graph (edgeDecls rangeRelations data) =
      (case addRelationMaps lib rangeRelations graph (relations data) of
         Inl err \<Rightarrow> Returns ('''', Some err)
       | Inr graph' \<Rightarrow> Returns (graphString lib graph', None))" for graph
    using run_addRelationMaps[of lib graph rangeRelations "relations data" "[]"]
    by (simp add: edgeDecls_def split: sum.split)
  have n: "run lib graph (nodeDecls rangeNodes data @ edgeDecls rangeRelations data) =
      (case addNodeMaps lib rangeNodes graph (nodes data) of
         Panics \<Rightarrow> Panics
       | Returns (Inl err) \<Rightarrow> Returns ('''', Some err)
       | Returns (Inr graph') \<Rightarrow> run lib graph' (edgeDecls rangeRelations data))" for graph
    using run_addNodeMaps[of lib graph rangeNodes "nodes data" "edgeDecls rangeRelations data"]
    by (simp add: nodeDecls_def)
  show ?thesis
    by (simp add: generateGraph_def render_def declarations_def issue_def n e
          split: option.split outcome.split sum.split)
qed

lemma run_accepting:
  "\<forall>g c. addErr lib g c = None \<Longrightarrow>
     run lib graph (map Declare cs) = Returns (graphString lib (graph @ cs), None)"
  by (induction cs arbitrary: graph) simp_all

lemma render_accepting:
  "parseStringErr lib = None \<Longrightarrow> analyseErr lib = None \<Longrightarrow> \<forall>g c. addErr lib g c = None \<Longrightarrow>
     render lib (map Declare cs) = Returns (graphString lib cs, None)"
  by (simp add: render_def run_accepting)

lemma listingLibrary_accepts:
  "parseStringErr listingLibrary = None" "analyseErr listingLibrary = None"
  "\<forall>g c. addErr listingLibrary g c = None"
  by (simp_all add: listingLibrary_def)

lemma nodeDecl_examples:
  "nodeDecl ''A'' ''LDS0'' = Declare (nodeCall ''A'' ''LDS0'')"
  "nodeDecl ''B'' ''LDS1'' = Declare (nodeCall ''B'' ''LDS1'')"
  "nodeDecl ''R1'' ''RDS0'' = Declare (nodeCall ''R1'' ''RDS0'')"
  by (simp_all add: nodeDecl_def nodeCall_styled)




lemma weighted_extracted:
  "parseXdsRelationship (decodedAs (Inr weightedSnapshot)) ''doc'' = Returns (weightedGraph, None)"
  by (simp add: extract_defs weightedSnapshot_def weightedGraph_def weightedRouteTable_def
        doc_defs)

section \<open>The reference sets of the route tables of a snapshot\<close>

lemma fold_Add_sort: "fold Add xs [] = sort (remdups xs)"
proof (rule sorted_distinct_set_unique)
  have "sorted_wrt (<) (fold Add xs [])" by (rule strict_sorted_fold_Add) simp
  then show "sorted (fold Add xs [])" "distinct (fold Add xs [])"
    by (simp_all add: strict_sorted_iff)
qed simp_all

lemma referencesOf_Nil [simp]: "referencesOf [] = Map.empty"
  by (simp add: referencesOf_def)

lemma referencesOf_append: "referencesOf (xs @ ys) = referencesOf xs ++ referencesOf ys"
  by (rule ext) (simp add: referencesOf_def map_add_def split: option.split)

lemma referencesOf_single: "f ++ referencesOf [(name, hosts)] = f(name \<mapsto> referenceSet hosts)"
  by (rule ext) (simp add: referencesOf_def map_add_def)

lemma scanArray_tables:
  assumes T: "\<forall>idx m x m'. step idx m x = Returns m' \<longrightarrow>
                rdsToCds m' = rdsToCds m ++ referencesOf (T x)"
  shows "scanArray step k m xs = Returns m' \<Longrightarrow>
           rdsToCds m' = rdsToCds m ++ referencesOf (concat (map T xs))"
proof (induction xs arbitrary: k m)
  case Nil
  then show ?case by simp
next
  case (Cons x xs)
  from Cons.prems obtain m1 where
    m1: "step k m x = Returns m1" "scanArray step (Suc k) m1 xs = Returns m'"
    by (auto simp: andThen_eq_Returns)
  from T m1(1) have a: "rdsToCds m1 = rdsToCds m ++ referencesOf (T x)" by blast
  from Cons.IH[OF m1(2)]
  have "rdsToCds m' = rdsToCds m1 ++ referencesOf (concat (map T xs))" .
  with a show ?case by (simp add: referencesOf_append)
qed

lemma rangeValues_tables:
  assumes T: "\<forall>idx m x m'. step idx m x = Returns m' \<longrightarrow>
                rdsToCds m' = rdsToCds m ++ referencesOf (T x)"
  shows "rangeValues step m entries = Returns m' \<Longrightarrow>
           rdsToCds m' = rdsToCds m ++
             referencesOf (concat (map (\<lambda>(key, v). case v of JArray xs \<Rightarrow> concat (map T xs) | _ \<Rightarrow> [])
                                    entries))"
proof (induction entries arbitrary: m)
  case Nil
  then show ?case by simp
next
  case (Cons e entries)
  obtain key v where e: "e = (key, v)" by (cases e)
  from Cons.prems e obtain xs m1 where
    m1: "asSlice v = Returns xs" "scanArray step 0 m xs = Returns m1"
        "rangeValues step m1 entries = Returns m'"
    by (auto simp: andThen_eq_Returns)
  from m1(1) have v: "v = JArray xs" by (cases v) simp_all
  from scanArray_tables[OF T m1(2)]
  have a: "rdsToCds m1 = rdsToCds m ++ referencesOf (concat (map T xs))" .
  from Cons.IH[OF m1(3)] a show ?case by (simp add: e v referencesOf_append)
qed

lemma tables_routeConfigStep:
  "\<forall>idx m x m'. routeConfigStep idx m x = Returns m' \<longrightarrow>
     rdsToCds m' = rdsToCds m ++ referencesOf (case decodeRouteTable x of None \<Rightarrow> [] | Some t \<Rightarrow> [t])"
  by (auto simp: routeConfigStep_decode fold_Add_sort referenceSet_def referencesOf_single
        List.map_filter_simps split: option.splits)

lemma tables_listenerStep:
  "\<forall>idx m x m'. listenerStep idx m x = Returns m' \<longrightarrow>
     rdsToCds m' = rdsToCds m ++ referencesOf ((\<lambda>x. []) x)"
  by (auto simp: listenerStep_decode split: option.splits)

lemma tables_clusterStep:
  "\<forall>idx m x m'. clusterStep idx m x = Returns m' \<longrightarrow>
     rdsToCds m' = rdsToCds m ++ referencesOf ((\<lambda>x. []) x)"
  by (auto simp: clusterStep_decode split: option.splits)

lemma concat_map_filter_single:
  "concat (map (\<lambda>x. case f x of None \<Rightarrow> [] | Some t \<Rightarrow> [t]) xs) = List.map_filter f xs"
  by (induction xs) (simp_all add: List.map_filter_simps split: option.split)

lemma concat_map_Nil:
  "concat (map (\<lambda>(key, v). case v of JArray xs \<Rightarrow> concat (map (\<lambda>x. []) xs) | _ \<Rightarrow> [])
             entries) = []"
  by (induction entries) (auto split: json.split)

lemma rangeValues_routeConfigStep_tables:
  "rangeValues routeConfigStep m entries = Returns m' \<Longrightarrow>
     rdsToCds m' = rdsToCds m ++ referencesOf (tablesOfValue (JObject entries))"
proof -
  assume r: "rangeValues routeConfigStep m entries = Returns m'"
  have "(\<lambda>(key :: string, v). case v of JArray xs \<Rightarrow> concat (map (\<lambda>x. case decodeRouteTable x of None \<Rightarrow> [] | Some t \<Rightarrow> [t]) xs) | _ \<Rightarrow> [])
      = (\<lambda>(key, xs). tablesOfArray xs)"
    by (rule ext) (simp add: tablesOfArray_def concat_map_filter_single split: prod.split json.split)
  with rangeValues_tables[OF tables_routeConfigStep r] show ?thesis
    by (simp add: tablesOfValue_def)
qed

lemma rangeValues_other_tables:
  assumes "step = listenerStep \<or> step = clusterStep"
      and "rangeValues step m entries = Returns m'"
  shows "rdsToCds m' = rdsToCds m"
proof -
  from assms(1) have T: "\<forall>idx m x m'. step idx m x = Returns m' \<longrightarrow>
      rdsToCds m' = rdsToCds m ++ referencesOf ((\<lambda>x. []) x)"
    using tables_listenerStep tables_clusterStep by blast
  from rangeValues_tables[OF T assms(2)] show ?thesis by (simp add: concat_map_Nil)
qed

lemma rangeXds_tables:
  "rangeXds m entries = Returns m' \<Longrightarrow>
     rdsToCds m' = rdsToCds m ++ referencesOf (tablesOfXds (JObject entries))"
proof (induction entries arbitrary: m)
  case Nil
  then show ?case by (simp add: tablesOfXds_def)
next
  case (Cons e entries)
  obtain key v where e: "e = (key, v)" by (cases e)
  have split: "tablesOfXds (JObject (e # entries))
      = (if key = ''routeConfig'' then tablesOfValue v else []) @ tablesOfXds (JObject entries)"
    by (simp add: tablesOfXds_def e)
  show ?case
  proof (cases "key = ''status'' \<or> categoryStep key = None")
    case True
    then have nr: "key \<noteq> ''routeConfig''" by (auto simp: categoryStep_def)
    from True Cons.prems e have "rangeXds m entries = Returns m'" by (auto split: if_splits)
    from Cons.IH[OF this] show ?thesis by (simp add: split nr)
  next
    case False
    then obtain step where step: "categoryStep key = Some step" and ns: "key \<noteq> ''status''"
      by auto
    from Cons.prems e step ns obtain vs m1 where
      m1: "asMap v = Returns vs" "rangeValues step m vs = Returns m1"
          "rangeXds m1 entries = Returns m'"
      by (auto simp: andThen_eq_Returns)
    from m1(1) have v: "v = JObject vs" by (cases v) simp_all
    have a: "rdsToCds m1 = rdsToCds m ++ referencesOf (if key = ''routeConfig'' then tablesOfValue v else [])"
    proof (cases "key = ''routeConfig''")
      case True
      with step have "step = routeConfigStep" by (simp add: categoryStep_def)
      with m1(2) rangeValues_routeConfigStep_tables[of m vs m1] True v show ?thesis by simp
    next
      case False
      with step have "step = listenerStep \<or> step = clusterStep"
        by (auto simp: categoryStep_def split: if_splits)
      from rangeValues_other_tables[OF this m1(2)] False show ?thesis by simp
    qed
    from Cons.IH[OF m1(3)] a show ?thesis by (simp only: split referencesOf_append map_add_assoc)
  qed
qed

lemma scanXdsConfig_tables:
  "scanXdsConfig m xs = Returns m' \<Longrightarrow>
     rdsToCds m' = rdsToCds m ++ referencesOf (concat (map tablesOfXds xs))"
proof (induction xs arbitrary: m)
  case Nil
  then show ?case by simp
next
  case (Cons x xs)
  from Cons.prems obtain entries m1 where
    m1: "asMap x = Returns entries" "rangeXds m entries = Returns m1"
        "scanXdsConfig m1 xs = Returns m'"
    by (auto simp: andThen_eq_Returns)
  from m1(1) have x: "x = JObject entries" by (cases x) simp_all
  from rangeXds_tables[OF m1(2)] Cons.IH[OF m1(3)] show ?case
    by (simp add: x referencesOf_append)
qed

lemma scanConfig_tables:
  "scanConfig m cs = Returns m' \<Longrightarrow>
     rdsToCds m' = rdsToCds m ++ referencesOf (concat (map tablesOfClient cs))"
proof (induction cs arbitrary: m)
  case Nil
  then show ?case by simp
next
  case (Cons c cs)
  from Cons.prems obtain xs m1 where
    m1: "configXds c = Returns xs" "scanXdsConfig m xs = Returns m1"
        "scanConfig m1 cs = Returns m'"
    by (auto simp: andThen_eq_Returns)
  from m1(1) have c: "arr (field ''xdsConfig'' c) = Some xs"
    by (cases "arr (field ''xdsConfig'' c)") (simp_all add: configXds_decode)
  from scanXdsConfig_tables[OF m1(2)] Cons.IH[OF m1(3)] show ?case
    by (simp add: tablesOfClient_def c referencesOf_append)
qed

lemma parseXdsRelationship_tables:
  assumes "Unmarshal js = Inr data" "parseXdsRelationship Unmarshal js = Returns (g, None)"
  shows "\<exists>m. g = packGraph m \<and> rdsToCds m = referencesOf (routeTablesOf data)"
proof -
  from assms obtain cs m where
    m: "asSlice (index data ''config'') = Returns cs" "scanConfig make_maps cs = Returns m"
       "g = packGraph m"
    by (auto simp: parseXdsRelationship_def andThen_eq_Returns)
  from m(1) have c: "arr (index data ''config'') = Some cs"
    by (cases "arr (index data ''config'')") (simp_all add: asSlice_arr)
  from scanConfig_tables[OF m(2)] have "rdsToCds m = referencesOf (routeTablesOf data)"
    by (simp add: routeTablesOf_def c make_maps_def)
  with m(3) show ?thesis by blast
qed

lemma map_of_rev_last:
  "i < length ts \<Longrightarrow> fst (ts ! i) \<notin> set (drop (Suc i) (map fst ts)) \<Longrightarrow>
     map_of (rev ts) (fst (ts ! i)) = Some (snd (ts ! i))"
proof -
  assume i: "i < length ts" and n: "fst (ts ! i) \<notin> set (drop (Suc i) (map fst ts))"
  have ts: "ts = take i ts @ ts ! i # drop (Suc i) ts" using i by (rule id_take_nth_drop)
  have "map_of (rev (drop (Suc i) ts)) (fst (ts ! i)) = None"
    using n by (simp add: map_of_eq_None_iff drop_map)
  then have "map_of (rev (take i ts @ ts ! i # drop (Suc i) ts)) (fst (ts ! i)) = Some (snd (ts ! i))"
    by (simp add: map_add_def)
  with ts show ?thesis by simp
qed

lemma referenceSet_members:
  "set (Values (referenceSet hosts)) = (\<Union>a\<in>set (concat hosts). set (actionClusters a))"
  "distinct (Values (referenceSet hosts))"
  by (simp_all add: referenceSet_def Values_def)

lemmas tables_defs = routeTablesOf_def tablesOfClient_def tablesOfXds_def tablesOfValue_def
  tablesOfArray_def decodeRouteTable_def decodeVirtualHost_def decodeAction_def
  List.map_filter_simps

text \<open>
  C4, as the code has it. When the extraction returns a graph, its second relation map is
  that of the reference sets of the route tables of the snapshot, stored by name: a table
  whose name does not occur again later in the scan has exactly the cluster names of its
  routes in its set, the one name of every single-cluster action and the names of every
  weighted set, each name once. A later table of the same name replaces the set (line
  278), so that the references of the earlier table are no longer in the graph.
\<close>

theorem route_table_reference_set:
  assumes "Unmarshal js = Inr data"
      and "parseXdsRelationship Unmarshal js = Returns (g, None)"
  shows "\<exists>ldsToRds rdsToCds. relations g = [ldsToRds, rdsToCds] \<and>
     rdsToCds = referencesOf (routeTablesOf data) \<and>
     (\<forall>i<length (routeTablesOf data).
        fst (routeTablesOf data ! i) \<notin> set (drop (Suc i) (map fst (routeTablesOf data))) \<longrightarrow>
          (\<exists>s. rdsToCds (fst (routeTablesOf data ! i)) = Some s \<and>
               set (Values s) = (\<Union>a\<in>set (concat (snd (routeTablesOf data ! i))). set (actionClusters a)) \<and>
               distinct (Values s)))"
proof -
  from parseXdsRelationship_tables[OF assms] obtain m where
    g: "g = packGraph m" and r: "rdsToCds m = referencesOf (routeTablesOf data)" by blast
  have rel: "relations g = [ldsToRds m, rdsToCds m]" by (simp add: g packGraph_def)
  have last: "\<forall>i<length (routeTablesOf data).
        fst (routeTablesOf data ! i) \<notin> set (drop (Suc i) (map fst (routeTablesOf data))) \<longrightarrow>
          (\<exists>s. rdsToCds m (fst (routeTablesOf data ! i)) = Some s \<and>
               set (Values s) = (\<Union>a\<in>set (concat (snd (routeTablesOf data ! i))). set (actionClusters a)) \<and>
               distinct (Values s))"
  proof (intro allI impI)
    fix i assume i: "i < length (routeTablesOf data)"
      and n: "fst (routeTablesOf data ! i) \<notin> set (drop (Suc i) (map fst (routeTablesOf data)))"
    from map_of_rev_last[OF i n]
    have "rdsToCds m (fst (routeTablesOf data ! i)) = Some (referenceSet (snd (routeTablesOf data ! i)))"
      by (simp add: r referencesOf_def)
    with referenceSet_members[of "snd (routeTablesOf data ! i)"]
    show "\<exists>s. rdsToCds m (fst (routeTablesOf data ! i)) = Some s \<and>
               set (Values s) = (\<Union>a\<in>set (concat (snd (routeTablesOf data ! i))). set (actionClusters a)) \<and>
               distinct (Values s)" by blast
  qed
  from rel r last show ?thesis by blast
qed

theorem route_table_reference_set_witness:
  "decodedAs (Inr weightedSnapshot) ''doc'' = Inr weightedSnapshot \<and>
   parseXdsRelationship (decodedAs (Inr weightedSnapshot)) ''doc'' = Returns (weightedGraph, None) \<and>
   routeTablesOf weightedSnapshot
     = [(''R1'', [[Cluster ''C2'', WeightedClusters [''B'', ''A'']], [Cluster ''B'']])] \<and>
   (relations weightedGraph ! 1) ''R1'' = Some [''A'', ''B'', ''C2'']"
proof -
  have u: "decodedAs (Inr weightedSnapshot) ''doc'' = Inr weightedSnapshot"
    by (simp add: decodedAs_def)
  have tabs: "routeTablesOf weightedSnapshot
      = [(''R1'', [[Cluster ''C2'', WeightedClusters [''B'', ''A'']], [Cluster ''B'']])]"
    by (simp add: tables_defs weightedSnapshot_def weightedRouteTable_def doc_defs)
  from route_table_reference_set [OF u weighted_extracted]
  obtain l r where rel: "relations weightedGraph = [l, r]"
    and r: "r = referencesOf (routeTablesOf weightedSnapshot)"
    by (elim exE conjE) (rule that, assumption+)
  have "r ''R1'' = Some [''A'', ''B'', ''C2'']"
    by (simp add: r tabs referencesOf_def referenceSet_def)
  then have out: "(relations weightedGraph ! 1) ''R1'' = Some [''A'', ''B'', ''C2'']"
    by (simp add: rel)
  from u weighted_extracted tabs out show ?thesis by (intro conjI) assumption+
qed

text \<open>
  The claim read literally. Two clients report the route table \<open>R1\<close>; the route of
  the first goes to the cluster \<open>C1\<close>, the route of the second to \<open>C2\<close>. The set of
  \<open>R1\<close> in the returned graph holds \<open>C2\<close> alone: the single-cluster route of the
  first table has added nothing to the set that the graph keeps for its route table.
\<close>

theorem later_table_replaces_references:
  "parseXdsRelationship (decodedAs (Inr repeatedTableSnapshot)) ''doc''
     = Returns (repeatedTableGraph, None) \<and>
   routeTablesOf repeatedTableSnapshot
     = [(''R1'', [[Cluster ''C1'']]), (''R1'', [[Cluster ''C2'']])] \<and>
   (relations repeatedTableGraph ! 1) ''R1'' = Some [''C2'']"
proof -
  have p: "parseXdsRelationship (decodedAs (Inr repeatedTableSnapshot)) ''doc''
     = Returns (repeatedTableGraph, None)"
    by (simp add: extract_defs repeatedTableSnapshot_def repeatedTableGraph_def doc_defs
          routeTableJson_def singleRoute_def)
  have t: "routeTablesOf repeatedTableSnapshot
     = [(''R1'', [[Cluster ''C1'']]), (''R1'', [[Cluster ''C2'']])]"
    by (simp add: tables_defs repeatedTableSnapshot_def doc_defs routeTableJson_def
          singleRoute_def)
  have r: "(relations repeatedTableGraph ! 1) ''R1'' = Some [''C2'']"
    by (simp add: repeatedTableGraph_def)
  from p t r show ?thesis by (intro conjI) assumption+
qed

section \<open>Colours of the nodes of an extracted graph\<close>

lemma rangeOf_entry: "rangeOf m entries \<Longrightarrow> (k, v) \<in> set entries \<Longrightarrow> m k = Some v"
  by (auto simp: rangeOf_def)

lemma nodeDecl_tagged:
  "nodeDecl name (''LDS'' @ Itoa k) = Declare (styledNode name (''LDS'' @ Itoa k) ''#4285F4'')"
  "nodeDecl name (''RDS'' @ Itoa k) = Declare (styledNode name (''RDS'' @ Itoa k) ''#FBBC04'')"
  "nodeDecl name (''CDS'' @ Itoa k) = Declare (styledNode name (''CDS'' @ Itoa k) ''#34A853'')"
  using Itoa_digits[of k] by (cases "Itoa k"; simp add: nodeDecl_def colors_def)+

lemma nodeDecls_by_category:
  assumes "shortIds tag m" "rangeOf m entries"
      and "\<And>name k. nodeDecl name (tag @ Itoa k) = Declare (styledNode name (tag @ Itoa k) colour)"
  shows "map (\<lambda>(name, node). nodeDecl name node) entries
       = map (\<lambda>(name, node). Declare (styledNode name node colour)) entries"
proof (rule map_cong [OF refl])
  fix e assume e: "e \<in> set entries"
  obtain name node where p: "e = (name, node)" by (cases e)
  from rangeOf_entry[OF assms(2)] e p have "m name = Some node" by simp
  with assms(1) obtain k where "node = tag @ Itoa k" unfolding shortIds_def by blast
  with assms(3)[of name k] p
  show "(case e of (name, node) \<Rightarrow> nodeDecl name node)
      = (case e of (name, node) \<Rightarrow> Declare (styledNode name node colour))" by simp
qed

text \<open>
  C10. For every graph that the extraction returns, the ids of the three node maps are
  the tag of their category (\<open>LDS\<close>, \<open>RDS\<close>, \<open>CDS\<close>) followed by a decimal numeral, so
  that their first three characters are the tag; and the renderer, whatever the order in
  which \<^verbatim>\<open>range\<close> traverses the node maps, declares every node of the listener map with
  the colour \<open>#4285F4\<close>, every node of the route map with \<open>#FBBC04\<close> and every node of
  the cluster map with \<open>#34A853\<close>.
\<close>

theorem node_ids_carry_category:
  assumes "parseXdsRelationship Unmarshal js = Returns (g, None)"
      and "\<forall>m\<in>set (nodes g). rangeOf m (rangeNodes m)"
  shows "\<exists>l r c. nodes g = [l, r, c] \<and>
     (\<forall>name v. l name = Some v \<longrightarrow> (\<exists>d. v = ''LDS'' @ d \<and> decimal d) \<and> take 3 v = ''LDS'') \<and>
     (\<forall>name v. r name = Some v \<longrightarrow> (\<exists>d. v = ''RDS'' @ d \<and> decimal d) \<and> take 3 v = ''RDS'') \<and>
     (\<forall>name v. c name = Some v \<longrightarrow> (\<exists>d. v = ''CDS'' @ d \<and> decimal d) \<and> take 3 v = ''CDS'') \<and>
     generateGraph lib rangeNodes rangeRelations g =
       render lib
         (Declare (AddAttr ''G'' ''rankdir'' ''LR'')
          # map (\<lambda>(name, v). Declare (styledNode name v ''#4285F4'')) (rangeNodes l)
          @ map (\<lambda>(name, v). Declare (styledNode name v ''#FBBC04'')) (rangeNodes r)
          @ map (\<lambda>(name, v). Declare (styledNode name v ''#34A853'')) (rangeNodes c)
          @ edgeDecls rangeRelations g)"
proof -
  from parseXdsRelationship_graphInvariant[OF assms(1)] obtain m where
    g: "g = packGraph m" and inv: "graphInvariant m" by blast
  from inv have sl: "shortIds ''LDS'' (lds m)" and sr: "shortIds ''RDS'' (rds m)"
    and sc: "shortIds ''CDS'' (cds m)" unfolding graphInvariant_def by blast+
  have n: "nodes g = [lds m, rds m, cds m]" by (simp add: g packGraph_def)
  from assms(2) n have rl: "rangeOf (lds m) (rangeNodes (lds m))"
    and rr: "rangeOf (rds m) (rangeNodes (rds m))"
    and rc: "rangeOf (cds m) (rangeNodes (cds m))" by simp_all
  have ids: "\<And>tag f name v. shortIds tag f \<Longrightarrow> length tag = 3 \<Longrightarrow> f name = Some v \<Longrightarrow>
      (\<exists>d. v = tag @ d \<and> decimal d) \<and> take 3 v = tag"
  proof -
    fix tag f name v
    assume "shortIds tag f" and len: "length tag = 3" and "f name = Some v"
    then obtain k where v: "v = tag @ Itoa k" unfolding shortIds_def by blast
    have "\<exists>d. v = tag @ d \<and> decimal d" using v decimal_Itoa by blast
    moreover have "take 3 v = tag" using v len by simp
    ultimately show "(\<exists>d. v = tag @ d \<and> decimal d) \<and> take 3 v = tag" by blast
  qed
  have il: "\<forall>name v. lds m name = Some v \<longrightarrow>
      (\<exists>d. v = ''LDS'' @ d \<and> decimal d) \<and> take 3 v = ''LDS''"
    using ids[OF sl] by simp
  have ir: "\<forall>name v. rds m name = Some v \<longrightarrow>
      (\<exists>d. v = ''RDS'' @ d \<and> decimal d) \<and> take 3 v = ''RDS''"
    using ids[OF sr] by simp
  have ic: "\<forall>name v. cds m name = Some v \<longrightarrow>
      (\<exists>d. v = ''CDS'' @ d \<and> decimal d) \<and> take 3 v = ''CDS''"
    using ids[OF sc] by simp
  have nd: "nodeDecls rangeNodes g =
      map (\<lambda>(name, v). Declare (styledNode name v ''#4285F4'')) (rangeNodes (lds m))
      @ map (\<lambda>(name, v). Declare (styledNode name v ''#FBBC04'')) (rangeNodes (rds m))
      @ map (\<lambda>(name, v). Declare (styledNode name v ''#34A853'')) (rangeNodes (cds m))"
    unfolding nodeDecls_def n
    using nodeDecls_by_category[OF sl rl nodeDecl_tagged(1)]
      nodeDecls_by_category[OF sr rr nodeDecl_tagged(2)]
      nodeDecls_by_category[OF sc rc nodeDecl_tagged(3)]
    by simp
  have gen: "generateGraph lib rangeNodes rangeRelations g =
       render lib
         (Declare (AddAttr ''G'' ''rankdir'' ''LR'')
          # map (\<lambda>(name, v). Declare (styledNode name v ''#4285F4'')) (rangeNodes (lds m))
          @ map (\<lambda>(name, v). Declare (styledNode name v ''#FBBC04'')) (rangeNodes (rds m))
          @ map (\<lambda>(name, v). Declare (styledNode name v ''#34A853'')) (rangeNodes (cds m))
          @ edgeDecls rangeRelations g)"
    by (simp only: generateGraph_render declarations_def nd append_assoc)
  from n il ir ic gen show ?thesis by blast
qed

theorem node_ids_carry_category_witness:
  "parseXdsRelationship (decodedAs (Inr exampleSnapshot)) ''doc'' = Returns (exampleGraph, None) \<and>
   traversalOf [''L1'', ''R1'', ''C1''] exampleGraph \<and>
   generateGraph listingLibrary (rangeInOrder [''L1'', ''R1'', ''C1''])
       (rangeInOrder [''L1'', ''R1'', ''C1'']) exampleGraph
     = render listingLibrary
         [Declare (AddAttr ''G'' ''rankdir'' ''LR''),
          Declare (styledNode ''L1'' ''LDS0'' ''#4285F4''),
          Declare (styledNode ''R1'' ''RDS0'' ''#FBBC04''),
          Declare (styledNode ''C1'' ''CDS0'' ''#34A853''),
          Declare (edgeCall ''L1'' ''R1''), Declare (edgeCall ''R1'' ''C1'')]"
proof -
  let ?o = "[''L1'', ''R1'', ''C1'']"
  let ?rn = "rangeInOrder ?o :: (string \<rightharpoonup> string) \<Rightarrow> (string \<times> string) list"
  let ?rr = "rangeInOrder ?o :: (string \<rightharpoonup> treeset) \<Rightarrow> (string \<times> treeset) list"
  have t: "traversalOf ?o exampleGraph"
    by (simp add: traversalOf_def rangeOf_def exampleGraph_def range_defs)
  have a: "\<forall>m\<in>set (nodes exampleGraph). rangeOf m (?rn m)"
    using t by (simp add: traversalOf_def list_all_iff)
  from node_ids_carry_category [OF example_extracted a, of listingLibrary ?rr]
  obtain l r c where n: "nodes exampleGraph = [l, r, c]"
    and gen: "generateGraph listingLibrary ?rn ?rr exampleGraph =
       render listingLibrary
         (Declare (AddAttr ''G'' ''rankdir'' ''LR'')
          # map (\<lambda>(name, v). Declare (styledNode name v ''#4285F4'')) (?rn l)
          @ map (\<lambda>(name, v). Declare (styledNode name v ''#FBBC04'')) (?rn r)
          @ map (\<lambda>(name, v). Declare (styledNode name v ''#34A853'')) (?rn c)
          @ edgeDecls ?rr exampleGraph)"
    by (elim exE conjE) (rule that, assumption+)
  from n have l: "l = [''L1'' \<mapsto> ''LDS0'']" and r: "r = [''R1'' \<mapsto> ''RDS0'']"
    and c: "c = [''C1'' \<mapsto> ''CDS0'']"
    by (simp_all add: exampleGraph_def)
  have el: "?rn l = [(''L1'', ''LDS0'')]" by (simp add: l range_defs)
  have er: "?rn r = [(''R1'', ''RDS0'')]" by (simp add: r range_defs)
  have ec: "?rn c = [(''C1'', ''CDS0'')]" by (simp add: c range_defs)
  have ed: "edgeDecls ?rr exampleGraph
      = [Declare (edgeCall ''L1'' ''R1''), Declare (edgeCall ''R1'' ''C1'')]"
    by (simp add: edgeDecls_def exampleGraph_def range_defs Values_def)
  have out: "generateGraph listingLibrary ?rn ?rr exampleGraph
     = render listingLibrary
         [Declare (AddAttr ''G'' ''rankdir'' ''LR''),
          Declare (styledNode ''L1'' ''LDS0'' ''#4285F4''),
          Declare (styledNode ''R1'' ''RDS0'' ''#FBBC04''),
          Declare (styledNode ''C1'' ''CDS0'' ''#34A853''),
          Declare (edgeCall ''L1'' ''R1''), Declare (edgeCall ''R1'' ''C1'')]"
    using gen by (simp only: el er ec ed list.map prod.case append.simps)
  from example_extracted t out show ?thesis by (intro conjI) assumption+
qed

section \<open>Order of the members of a reference set\<close>

lemma strict_sort_remdups: "sorted_wrt (<) xs \<Longrightarrow> sort (remdups xs) = (xs :: string list)"
  by (simp add: strict_sorted_iff sorted_sort_id)

lemma edgeDecls_ascending:
  assumes "\<forall>r\<in>set rs. strictSets r \<and> rangeOf r (rangeRelations r)"
  shows "concat (map (\<lambda>r. concat (map (\<lambda>(src, s). map (\<lambda>dst. Declare (edgeCall src dst)) (Values s))
                                    (rangeRelations r))) rs)
       = concat (map (\<lambda>r. concat (map (\<lambda>(src, s). map (\<lambda>dst. Declare (edgeCall src dst))
                                                     (sort (remdups (Values s))))
                                    (rangeRelations r))) rs)"
proof -
  have "\<And>r e. r \<in> set rs \<Longrightarrow> e \<in> set (rangeRelations r) \<Longrightarrow>
      (case e of (src, s) \<Rightarrow> map (\<lambda>dst. Declare (edgeCall src dst)) (Values s))
    = (case e of (src, s) \<Rightarrow> map (\<lambda>dst. Declare (edgeCall src dst)) (sort (remdups (Values s))))"
  proof -
    fix r e assume r: "r \<in> set rs" and e: "e \<in> set (rangeRelations r)"
    obtain src s where p: "e = (src, s)" by (cases e)
    from assms r have ss: "strictSets r" and ro: "rangeOf r (rangeRelations r)" by blast+
    from rangeOf_entry[OF ro] e p have "r src = Some s" by simp
    with ss have "sorted_wrt (<) (Values s)" unfolding strictSets_def by blast
    then show "(case e of (src, s) \<Rightarrow> map (\<lambda>dst. Declare (edgeCall src dst)) (Values s))
      = (case e of (src, s) \<Rightarrow> map (\<lambda>dst. Declare (edgeCall src dst)) (sort (remdups (Values s))))"
      by (simp add: p strict_sort_remdups)
  qed
  then show ?thesis by (simp cong: map_cong)
qed



section \<open>Viewer and file\<close>

lemma saveDot_written:
  "createErr os = None \<Longrightarrow> writeErr os = None \<Longrightarrow>
     snd (saveDot os dot w) = None \<and> files (fst (saveDot os dot w)) ''config_graph.dot'' = Some dot"
  by (simp add: saveDot_def Let_def)

text \<open>
  C6, as the code has it. \<^verbatim>\<open>visualize\<close> launches the viewer before it creates the file
  (lines 189-194, then 197-205). When the launch fails, the error is returned and nothing
  else has happened: no file is created or written by this call. The file holds the
  rendered text once the call returns without error, which takes monitor mode or a
  successful launch.
\<close>

theorem viewer_failure_leaves_files_untouched:
  assumes "parseXdsRelationship Unmarshal config = Returns (graphData, None)"
      and "generateGraph lib rangeNodes rangeRelations graphData = Returns (dot, None)"
  shows "(\<not> monitor \<and>
          openBrowser os (''http://dreampuf.github.io/GraphvizOnline/#'' @ dot) = Some err \<longrightarrow>
            visualize Unmarshal lib rangeNodes rangeRelations os config monitor w
              = Returns (w, Some err)) \<and>
         ((monitor \<or> openBrowser os (''http://dreampuf.github.io/GraphvizOnline/#'' @ dot) = None)
          \<and> createErr os = None \<and> writeErr os = None \<longrightarrow>
            (\<exists>w'. visualize Unmarshal lib rangeNodes rangeRelations os config monitor w
                    = Returns (w', None) \<and>
                  files w' ''config_graph.dot'' = Some dot))"
proof (intro conjI impI)
  assume "\<not> monitor \<and>
      openBrowser os (''http://dreampuf.github.io/GraphvizOnline/#'' @ dot) = Some err"
  then show "visualize Unmarshal lib rangeNodes rangeRelations os config monitor w
      = Returns (w, Some err)"
    by (simp add: visualize_def assms)
next
  assume a: "(monitor \<or> openBrowser os (''http://dreampuf.github.io/GraphvizOnline/#'' @ dot) = None)
      \<and> createErr os = None \<and> writeErr os = None"
  let ?w1 = "if monitor then w
             else w\<lparr>launched := launched w @ [''http://dreampuf.github.io/GraphvizOnline/#'' @ dot]\<rparr>"
  have v: "visualize Unmarshal lib rangeNodes rangeRelations os config monitor w
      = Returns (saveDot os dot ?w1)"
    using a by (auto simp: visualize_def assms)
  from a saveDot_written[of os dot ?w1]
  have s: "snd (saveDot os dot ?w1) = None"
      "files (fst (saveDot os dot ?w1)) ''config_graph.dot'' = Some dot" by simp_all
  have "visualize Unmarshal lib rangeNodes rangeRelations os config monitor w
      = Returns (fst (saveDot os dot ?w1), None)"
    using v s(1) by (metis prod.collapse)
  with s(2) show "\<exists>w'. visualize Unmarshal lib rangeNodes rangeRelations os config monitor w
                    = Returns (w', None) \<and>
                  files w' ''config_graph.dot'' = Some dot"
    by blast
qed

lemma example_rendered:
  "generateGraph listingLibrary (rangeInOrder [''L1'', ''R1'', ''C1''])
     (rangeInOrder [''L1'', ''R1'', ''C1'']) exampleGraph = Returns (exampleDot, None)"
proof -
  let ?rn = "rangeInOrder [''L1'', ''R1'', ''C1''] :: (string \<rightharpoonup> string) \<Rightarrow> (string \<times> string) list"
  let ?rr = "rangeInOrder [''L1'', ''R1'', ''C1''] :: (string \<rightharpoonup> treeset) \<Rightarrow> (string \<times> treeset) list"
  have b1: "parseStringErr listingLibrary = None" by (simp add: listingLibrary_def)
  have b2: "analyseErr listingLibrary = None" by (simp add: listingLibrary_def)
  have b3: "\<forall>g c. addErr listingLibrary g c = None" by (simp add: listingLibrary_def)
  have b4: "\<forall>m\<in>set (nodes exampleGraph). \<forall>(name, node)\<in>set (?rn m). 3 \<le> length node"
    by (simp add: exampleGraph_def range_defs)
  have calls: "graphCalls ?rn ?rr exampleGraph =
      [AddAttr ''G'' ''rankdir'' ''LR'',
       nodeCall ''L1'' ''LDS0'', nodeCall ''R1'' ''RDS0'', nodeCall ''C1'' ''CDS0'',
       edgeCall ''L1'' ''R1'', edgeCall ''R1'' ''C1'']"
    by (simp add: graphCalls_def nodeCalls_def edgeCalls_def exampleGraph_def range_defs
          Values_def)
  from generateGraph_accepted[OF b1 b2 b3 b4, of ?rr] show ?thesis
    by (simp only: calls exampleDot_def)
qed

theorem viewer_failure_leaves_files_untouched_witness:
  "visualize (decodedAs (Inr exampleSnapshot)) listingLibrary
       (rangeInOrder [''L1'', ''R1'', ''C1'']) (rangeInOrder [''L1'', ''R1'', ''C1''])
       failingViewer ''doc'' False emptyWorld
     = Returns (emptyWorld, Some ''executable file not found in $PATH'') \<and>
   (case visualize (decodedAs (Inr exampleSnapshot)) listingLibrary
           (rangeInOrder [''L1'', ''R1'', ''C1'']) (rangeInOrder [''L1'', ''R1'', ''C1''])
           workingViewer ''doc'' False emptyWorld of
      Returns (w', e) \<Rightarrow> (files w' ''config_graph.dot'', e)
    | Panics \<Rightarrow> (None, None)) = (Some exampleDot, None)"
proof -
  let ?url = "''http://dreampuf.github.io/GraphvizOnline/#'' @ exampleDot"
  have nm: "\<not> False" by simp
  have ob: "openBrowser failingViewer ?url = Some ''executable file not found in $PATH''"
    by (simp add: openBrowser_def failingViewer_def)
  have ob': "openBrowser workingViewer ?url = None"
    by (simp add: openBrowser_def workingViewer_def)
  have c: "createErr workingViewer = None" by (simp add: workingViewer_def)
  have wr: "writeErr workingViewer = None" by (simp add: workingViewer_def)
  have f: "visualize (decodedAs (Inr exampleSnapshot)) listingLibrary
       (rangeInOrder [''L1'', ''R1'', ''C1'']) (rangeInOrder [''L1'', ''R1'', ''C1''])
       failingViewer ''doc'' False emptyWorld
     = Returns (emptyWorld, Some ''executable file not found in $PATH'')"
    by (rule viewer_failure_leaves_files_untouched
              [where w = emptyWorld and monitor = False and os = failingViewer,
               OF example_extracted example_rendered, THEN conjunct1, rule_format,
               OF conjI [OF nm ob]])
  from viewer_failure_leaves_files_untouched
         [where w = emptyWorld and monitor = False and os = workingViewer,
          OF example_extracted example_rendered, THEN conjunct2, rule_format,
          OF conjI [OF disjI2 [OF ob'] conjI [OF c wr]]]
  obtain w' where w': "visualize (decodedAs (Inr exampleSnapshot)) listingLibrary
       (rangeInOrder [''L1'', ''R1'', ''C1'']) (rangeInOrder [''L1'', ''R1'', ''C1''])
       workingViewer ''doc'' False emptyWorld = Returns (w', None)"
      "files w' ''config_graph.dot'' = Some exampleDot"
    by (elim exE conjE) (rule that, assumption+)
  from w' have g: "(case visualize (decodedAs (Inr exampleSnapshot)) listingLibrary
           (rangeInOrder [''L1'', ''R1'', ''C1'']) (rangeInOrder [''L1'', ''R1'', ''C1''])
           workingViewer ''doc'' False emptyWorld of
      Returns (w', e) \<Rightarrow> (files w' ''config_graph.dot'', e)
    | Panics \<Rightarrow> (None, None)) = (Some exampleDot, None)" by simp
  from f g show ?thesis by (intro conjI) assumption+
qed

text \<open>
  The claim read literally: the snapshot of the example, rendered outside monitor mode on
  a platform where the viewer cannot be started, in a world with no file. The error comes
  back and \<^verbatim>\<open>config_graph.dot\<close> does not exist, where the claim has it written.
\<close>

theorem viewer_failure_writes_no_file:
  "visualize (decodedAs (Inr exampleSnapshot)) listingLibrary
       (rangeInOrder [''L1'', ''R1'', ''C1'']) (rangeInOrder [''L1'', ''R1'', ''C1''])
       failingViewer ''doc'' False emptyWorld
     = Returns (emptyWorld, Some ''executable file not found in $PATH'') \<and>
   files emptyWorld ''config_graph.dot'' = None"
  by (simp add: visualize_def example_extracted example_rendered openBrowser_def
        failingViewer_def emptyWorld_def)

section \<open>Properties of the Status Summarizer\<close>

lemma parseConfigStatus_loop_filter:
  "parseConfigStatus_loop String acc xs =
     acc @ map (\<lambda>e. xdsTag e @ ''   '' @ String (GetStatus e))
             (filter (\<lambda>e. String (GetStatus e) \<noteq> '''' \<and> xdsTag e \<noteq> '''') xs)"
  by (induction xs arbitrary: acc) (simp_all add: Let_def)

lemma xdsTag_firstPopulated: "xdsTag e = firstPopulated e"
  by (simp add: xdsTag_def firstPopulated_def)

text \<open>
  C9. Each line of the summary is labelled by the first populated variant of its entry in
  the fixed order cluster, listener, route, scoped route (CDS before LDS before RDS
  before SRDS), whatever else the entry has populated.
\<close>

theorem parseConfigStatus_v2_priority:
  "parseConfigStatus_v2 String xs =
     map (\<lambda>e. firstPopulated e @ ''   '' @ String (GetStatus e))
       (filter (\<lambda>e. String (GetStatus e) \<noteq> '''' \<and> firstPopulated e \<noteq> '''') xs)"
  by (simp add: parseConfigStatus_v2_def parseConfigStatus_loop_filter xdsTag_firstPopulated)

theorem parseConfigStatus_v2_priority_witness:
  "parseConfigStatus_v2 (\<lambda>s. if s = 1 then ''SYNCED'' else ''UNKNOWN'')
     [\<lparr>GetStatus = 1, GetClusterConfig = Some (), GetListenerConfig = Some (),
       GetRouteConfig = None, GetScopedRouteConfig = Some ()\<rparr>,
      \<lparr>GetStatus = 0, GetClusterConfig = None, GetListenerConfig = Some (),
       GetRouteConfig = Some (), GetScopedRouteConfig = None\<rparr>,
      \<lparr>GetStatus = 1, GetClusterConfig = None, GetListenerConfig = None,
       GetRouteConfig = Some (), GetScopedRouteConfig = Some ()\<rparr>]
   = [''CDS   SYNCED'', ''LDS   UNKNOWN'', ''RDS   SYNCED'']"
  using parseConfigStatus_v2_priority
    [of "\<lambda>s. if s = 1 then ''SYNCED'' else ''UNKNOWN''"
        "[\<lparr>GetStatus = 1, GetClusterConfig = Some (), GetListenerConfig = Some (),
           GetRouteConfig = None, GetScopedRouteConfig = Some ()\<rparr>,
          \<lparr>GetStatus = 0, GetClusterConfig = None, GetListenerConfig = Some (),
           GetRouteConfig = Some (), GetScopedRouteConfig = None\<rparr>,
          \<lparr>GetStatus = 1, GetClusterConfig = None, GetListenerConfig = None,
           GetRouteConfig = Some (), GetScopedRouteConfig = Some ()\<rparr>]"]
  by (simp add: firstPopulated_def)

lemma RuneCountInString_examples:
  "RuneCountInString ''abc'' = 3"
  "RuneCountInString [CHR 0xC3, CHR 0xA9] = 1"
  "RuneCountInString [CHR 0xE2, CHR 0x82, CHR 0xAC, CHR 0x41, CHR 0xFF, CHR 0xC3] = 4"
  by (simp_all add: RuneCountInString_def contByte_def)

lemma pad_counts_runes: "pad 3 [CHR 0xC3, CHR 0xA9] = [CHR 0xC3, CHR 0xA9, CHR '' '', CHR '' '']"
  by (simp add: pad_def RuneCountInString_def contByte_def numeral_2_eq_2)

lemma printStatusLines_Suc: "printStatusLines (Suc i) ls = concat (map (row '''' '''') ls)"
  by (induction ls arbitrary: i) simp_all

lemma printStatusLines_column:
  "printStatusLines 0 ls @ (if length ls = 0 then newline else '''') = statusColumn ls"
  by (cases ls) (simp_all add: statusColumn_def printStatusLines_Suc)

lemma parseConfigStatus_v2_statusLines: "parseConfigStatus_v2 String xs = statusLines String xs"
  by (simp add: parseConfigStatus_v2_def parseConfigStatus_loop_filter xdsTag_firstPopulated
        statusLines_def)

lemma clientIdAndType_streamType:
  "clientIdAndType config =
     (case streamType config of None \<Rightarrow> Panics | Some t \<Rightarrow> Returns (clientId config, t))"
  by (simp add: clientIdAndType_def streamType_def clientId_def Let_def
      split: option.split json.split)

lemma printClient_row:
  "printClient String config =
     (case streamType config of
        None \<Rightarrow> ('''', Panics)
      | Some t \<Rightarrow> (clientRow String config, Returns (GetXdsConfig config \<noteq> None)))"
proof (cases "streamType config")
  case None
  then show ?thesis by (simp add: printClient_def clientIdAndType_streamType)
next
  case (Some t)
  show ?thesis
  proof (cases "GetXdsConfig config")
    case None
    with Some show ?thesis
      by (simp add: printClient_def clientIdAndType_streamType clientRow_def)
  next
    case (Some xs)
    have "printStatusLines 0 (statusLines String xs)
            @ (if length (statusLines String xs) = 0 then newline else '''')
          = statusColumn (statusLines String xs)"
      by (rule printStatusLines_column)
    with Some \<open>streamType config = Some t\<close> show ?thesis
      by (simp add: printClient_def clientIdAndType_streamType clientRow_def Let_def
            parseConfigStatus_v2_statusLines)
  qed
qed

lemma printClients_rows:
  "printClients String out has configs =
     (let served = takeWhile (\<lambda>config. streamType config \<noteq> None) configs
      in (out @ concat (map (clientRow String) served),
          if length served < length configs then Panics
          else Returns (has \<or> list_ex (\<lambda>config. GetXdsConfig config \<noteq> None) configs)))"
proof (induction configs arbitrary: out has)
  case Nil
  then show ?case by simp
next
  case (Cons config configs)
  show ?case
  proof (cases "streamType config")
    case None
    then show ?thesis by (simp add: printClient_row)
  next
    case (Some t)
    then show ?thesis by (simp add: printClient_row Cons.IH Let_def)
  qed
qed

text \<open>
  C8, as the code has it. For a response with clients, the summarizer prints the header
  and then, for every client entry in turn: nothing, when the entry has neither a node nor
  a list of configuration entries; the row with \<open>N/A\<close> in the status column, when it has a
  node and no list; otherwise the id and the stream type followed by one line per entry of
  the list whose status string is not empty and that has a populated variant, made of the
  tag of the first populated variant, three spaces and the status string (the first line on
  the row of the client, the others on rows of their own), or by a bare newline when no
  entry gives a line. Columns are padded to their width in runes. A client whose node
  gives a stream type that is not a string makes the summarizer panic, after the rows of
  the clients before it.
\<close>

theorem status_rows:
  "printOutResponse_v2 String printDetailedConfig response =
     (if response = [] then (''No xDS clients connected.'' @ newline, Returns None)
      else let served = takeWhile (\<lambda>config. streamType config \<noteq> None) response;
               out = row ''Client ID'' ''xDS stream type'' ''Config Status''
                       @ concat (map (clientRow String) served)
           in if length served < length response then (out, Panics)
              else if list_ex (\<lambda>config. GetXdsConfig config \<noteq> None) response
                   then (case printDetailedConfig response of
                           (detail, result) \<Rightarrow> (out @ detail, result))
                   else (out, Returns None))"
  by (simp add: printOutResponse_v2_def printClients_rows Let_def)

lemmas client_defs =
  adsNode_def numberedNode_def syncedListeners_def staleClusters_def noVariant_def
  anonymousClient_def idleClient_def busyClient_def numberedClient_def

lemma example_rows:
  "streamType idleClient = Some ''ADS''" "streamType anonymousClient = Some ''''"
  "streamType busyClient = Some ''ADS''" "streamType numberedClient = None"
  "clientRow statusName idleClient = row ''client-1'' ''ADS'' ''N/A''"
  "clientRow statusName anonymousClient = ''''"
  "clientRow statusName busyClient =
     pad 50 ''client-1'' @ '' '' @ pad 30 ''ADS'' @ '' '' @
     statusColumn [''LDS   SYNCED'', ''CDS   STALE'']"
  by (simp_all add: streamType_def clientRow_def clientId_def statusLines_def firstPopulated_def
        statusName_def client_defs)

theorem status_rows_witness:
  "(\<forall>printDetailedConfig.
      printOutResponse_v2 statusName printDetailedConfig [idleClient, anonymousClient, busyClient]
        = (case printDetailedConfig [idleClient, anonymousClient, busyClient] of
             (detail, result) \<Rightarrow>
               (header @ row ''client-1'' ''ADS'' ''N/A'' @
                (pad 50 ''client-1'' @ '' '' @ pad 30 ''ADS'' @ '' '' @
                 statusColumn [''LDS   SYNCED'', ''CDS   STALE'']) @ detail, result))) \<and>
   (\<forall>printDetailedConfig.
      printOutResponse_v2 statusName printDetailedConfig [idleClient, numberedClient, busyClient]
        = (header @ row ''client-1'' ''ADS'' ''N/A'', Panics))"
proof (intro conjI allI)
  fix printDetailedConfig :: "unit ClientConfig list \<Rightarrow> string \<times> string option outcome"
  have x: "list_ex (\<lambda>config. GetXdsConfig config \<noteq> None)
             [idleClient, anonymousClient, busyClient]"
    by (simp add: client_defs)
  show "printOutResponse_v2 statusName printDetailedConfig
          [idleClient, anonymousClient, busyClient]
        = (case printDetailedConfig [idleClient, anonymousClient, busyClient] of
             (detail, result) \<Rightarrow>
               (header @ row ''client-1'' ''ADS'' ''N/A'' @
                (pad 50 ''client-1'' @ '' '' @ pad 30 ''ADS'' @ '' '' @
                 statusColumn [''LDS   SYNCED'', ''CDS   STALE'']) @ detail, result))"
    using status_rows [of statusName printDetailedConfig
                          "[idleClient, anonymousClient, busyClient]"] x
    by (simp add: example_rows header_def Let_def split: prod.split)
next
  fix printDetailedConfig :: "unit ClientConfig list \<Rightarrow> string \<times> string option outcome"
  show "printOutResponse_v2 statusName printDetailedConfig
          [idleClient, numberedClient, busyClient]
        = (header @ row ''client-1'' ''ADS'' ''N/A'', Panics)"
    using status_rows [of statusName printDetailedConfig
                          "[idleClient, numberedClient, busyClient]"]
    by (simp add: example_rows header_def Let_def)
qed

text \<open>
  The claim read literally, on a client entry that has neither a node nor configuration
  entries: the guard of line 260 prints nothing for it, where the claim reports \<open>N/A\<close>.
\<close>

theorem client_without_node_prints_no_row:
  "printClient statusName anonymousClient = ('''', Returns False) \<and>
   printClients statusName header False [anonymousClient] = (header, Returns False)"
  by (simp add: printClient_def clientIdAndType_def anonymousClient_def)

end
